theory Spec2Isabelle
  imports Main
begin

section \<open>Python values used by git_helper.py\<close>

text \<open>
  A Python \<open>str\<close> is a sequence of Unicode code points; it is modelled as a list of
  natural numbers, so that \<open>chr(ch)\<close> of a curses key code above 255 is representable.
  \<open>py\<close> turns an Isabelle literal into such a string.
\<close>

type_synonym str = "nat list"

definition py :: "string \<Rightarrow> str" where
  "py s = map of_char s"

text \<open>\<open>str.isspace\<close> on one code point: the characters that \<open>str.strip()\<close> removes.\<close>

definition is_space :: "nat \<Rightarrow> bool" where
  "is_space c =
     ((9 \<le> c \<and> c \<le> 13) \<or> (28 \<le> c \<and> c \<le> 32) \<or> c = 133 \<or> c = 160 \<or> c = 5760
      \<or> (8192 \<le> c \<and> c \<le> 8202) \<or> c = 8232 \<or> c = 8233 \<or> c = 8239 \<or> c = 8287
      \<or> c = 12288)"

definition strip :: "str \<Rightarrow> str" where
  "strip s = rev (dropWhile is_space (rev (dropWhile is_space s)))"

text \<open>
  \<open>str.lower()\<close>. Upper-case ASCII letters are mapped to lower case, and so are the two
  code points outside ASCII whose lower-case form contains an ASCII letter (U+0130 and
  U+212A). Python also lowers the other non-ASCII upper-case letters, to non-ASCII ones;
  the model leaves those unchanged, which no comparison made by this program (against
  \<open>"y"\<close> and \<open>"nothing to commit"\<close>) can tell apart.
\<close>

definition lower_cp :: "nat \<Rightarrow> str" where
  "lower_cp c =
     (if 65 \<le> c \<and> c \<le> 90 then [c + 32]
      else if c = 304 then [105, 775]
      else if c = 8490 then [107]
      else [c])"

definition lower :: "str \<Rightarrow> str" where
  "lower s = concat (map lower_cp s)"

text \<open>The test \<open>needle in hay\<close> on strings.\<close>

fun starts_with :: "str \<Rightarrow> str \<Rightarrow> bool" where
  "starts_with hay [] = True"
| "starts_with [] (n # ns) = False"
| "starts_with (h # hs) (n # ns) = (h = n \<and> starts_with hs ns)"

fun contains :: "str \<Rightarrow> str \<Rightarrow> bool" where
  "contains [] needle = (needle = [])"
| "contains (h # hs) needle = (starts_with (h # hs) needle \<or> contains hs needle)"

definition endswith :: "str \<Rightarrow> str \<Rightarrow> bool" where
  "endswith s suffix = starts_with (rev s) (rev suffix)"

text \<open>\<open>s.split('/')[-1]\<close>: the part of \<open>s\<close> after its last slash (all of \<open>s\<close> without one).\<close>

definition last_segment :: "str \<Rightarrow> str" where
  "last_segment s = rev (takeWhile (\<lambda>c. c \<noteq> 47) (rev s))"

text \<open>
  \<open>str.splitlines()\<close>: a line ends at \<open>\n\<close>, \<open>\r\<close>, \<open>\r\n\<close>, \<open>\v\<close>, \<open>\f\<close>, U+001C..U+001E,
  U+0085, U+2028 or U+2029; the terminators are dropped and a final terminator opens no
  empty last line.
\<close>

definition is_linebreak :: "nat \<Rightarrow> bool" where
  "is_linebreak c =
     (c = 10 \<or> c = 11 \<or> c = 12 \<or> c = 13 \<or> c = 28 \<or> c = 29 \<or> c = 30 \<or> c = 133
      \<or> c = 8232 \<or> c = 8233)"

fun split_from :: "str \<Rightarrow> str \<Rightarrow> str list" where
  "split_from cur [] = (if cur = [] then [] else [cur])"
| "split_from cur [c] = (if is_linebreak c then [cur] else [cur @ [c]])"
| "split_from cur (c # d # cs) =
     (if c = 13 \<and> d = 10 then cur # split_from [] cs
      else if is_linebreak c then cur # split_from [] (d # cs)
      else split_from (cur @ [c]) (d # cs))"

definition splitlines :: "str \<Rightarrow> str list" where
  "splitlines s = split_from [] s"

text \<open>The slice \<open>xs[:k]\<close>, where a negative \<open>k\<close> counts from the end.\<close>

definition slice_to :: "'a list \<Rightarrow> int \<Rightarrow> 'a list" where
  "slice_to xs k = (if k < 0 then take (nat (int (length xs) + k)) xs else take (nat k) xs)"

section \<open>The terminal, the key queue and the shell\<close>

text \<open>Key codes of curses (the values of ncurses' \<open>curses.h\<close>).\<close>

definition KEY_DOWN :: int where "KEY_DOWN = 258"
definition KEY_UP :: int where "KEY_UP = 259"
definition KEY_LEFT :: int where "KEY_LEFT = 260"
definition KEY_RIGHT :: int where "KEY_RIGHT = 261"
definition KEY_BACKSPACE :: int where "KEY_BACKSPACE = 263"
definition KEY_ENTER :: int where "KEY_ENTER = 343"

lemmas key_defs = KEY_DOWN_def KEY_UP_def KEY_LEFT_def KEY_RIGHT_def KEY_BACKSPACE_def
  KEY_ENTER_def

datatype attr = A_BOLD | Color_pair nat

datatype glyph = ACS_HLINE | Glyph nat

text \<open>
  The window \<open>stdscr\<close> is an object of the curses library. The model records the calls
  the program makes on it, in order; it assumes a window large enough for every call to
  succeed (curses raises an error on a write outside the window). \<open>Addstr\<close> carries
  \<open>None\<close> when the call passes no attribute. \<open>Delch_left\<close> stands for the three calls
  \<open>getyx\<close>, \<open>move(y, x - 1)\<close>, \<open>delch\<close> that erase the character left of the cursor.
\<close>

datatype call =
    Clear
  | Refresh
  | Addstr int int str "attr option"
  | Move int int
  | Attron attr
  | Attroff attr
  | Hline int int glyph int
  | Echo
  | Noecho
  | Delch_left
  | Curs_set int

text \<open>
  The state threaded through the program: the key events that \<open>stdscr.getch()\<close> will
  deliver, the command lines handed to \<open>subprocess.run\<close> so far and the calls made
  on the window so far.
\<close>

record state =
  keys :: "int list"
  cmds :: "str list"
  screen :: "call list"

text \<open>
  The world outside the program. \<open>respond\<close> gives what \<open>run_command\<close> returns for a
  command line (combined output and return code; a command that cannot be started comes
  back as \<open>(str(e), 1)\<close>), and \<open>git_dir\<close> what \<open>os.path.isdir('.git')\<close> returns; both may
  depend on the commands run before. \<open>win_width\<close> is the width that \<open>getmaxyx\<close> reports.
\<close>

record env =
  respond :: "str list \<Rightarrow> str \<Rightarrow> str \<times> int"
  git_dir :: "str list \<Rightarrow> bool"
  win_width :: int
  LINES :: int
  COLS :: int

datatype exn = ValueError | IndexError | UnboundLocalError

text \<open>
  A call either returns a value, or waits in \<open>getch\<close> for a key that never comes
  (\<open>Blocked\<close>), or raises. Each outcome carries the state reached.
\<close>

datatype 'a result = Ok 'a state | Blocked state | Raised exn state

definition bind :: "'a result \<Rightarrow> ('a \<Rightarrow> state \<Rightarrow> 'b result) \<Rightarrow> 'b result" where
  "bind r f = (case r of Ok a s \<Rightarrow> f a s | Blocked s \<Rightarrow> Blocked s | Raised e s \<Rightarrow> Raised e s)"

fun state_of :: "'a result \<Rightarrow> state" where
  "state_of (Ok a s) = s"
| "state_of (Blocked s) = s"
| "state_of (Raised e s) = s"

fun value_of :: "'a result \<Rightarrow> 'a option" where
  "value_of (Ok a s) = Some a"
| "value_of (Blocked s) = None"
| "value_of (Raised e s) = None"

definition emit :: "call \<Rightarrow> state \<Rightarrow> state" where
  "emit c s = s\<lparr>screen := screen s @ [c]\<rparr>"

definition addstr :: "int \<Rightarrow> int \<Rightarrow> str \<Rightarrow> attr option \<Rightarrow> state \<Rightarrow> state" where
  "addstr row col text a s = emit (Addstr row col text a) s"

definition getch :: "state \<Rightarrow> int result" where
  "getch s = (case keys s of [] \<Rightarrow> Blocked s | k # ks \<Rightarrow> Ok k (s\<lparr>keys := ks\<rparr>))"

definition run_command :: "env \<Rightarrow> str \<Rightarrow> state \<Rightarrow> (str \<times> int) \<times> state" where
  "run_command e command s = (respond e (cmds s) command, s\<lparr>cmds := cmds s @ [command]\<rparr>)"

text \<open>\<open>chr(ch)\<close> raises ValueError outside \<open>range(0x110000)\<close>.\<close>

definition chr :: "int \<Rightarrow> nat option" where
  "chr ch = (if 0 \<le> ch \<and> ch < 1114112 then Some (nat ch) else None)"

lemma bind_cong [fundef_cong]:
  "r = r' \<Longrightarrow> (\<And>a s. r' = Ok a s \<Longrightarrow> f a s = f' a s) \<Longrightarrow> bind r f = bind r' f'"
  by (cases r') (simp_all add: bind_def)

lemma getch_keys: "getch s = Ok k s' \<Longrightarrow> length (keys s') < length (keys s)"
  by (auto simp: getch_def split: list.splits)

section \<open>get_user_input\<close>

text \<open>
  The \<open>while True\<close> loop of \<open>get_user_input\<close>. It yields \<open>None\<close> where the source returns
  \<open>None\<close> from inside the loop, and the buffer where the source leaves the loop by
  \<open>break\<close>.
\<close>

function input_loop :: "str \<Rightarrow> state \<Rightarrow> str option result" where
  "input_loop input_str s =
     bind (getch s) (\<lambda>ch s.
       if ch = 27 \<or> ch = KEY_LEFT then Ok None (emit Noecho s)
       else if ch = 10 \<or> ch = 13 then Ok (Some input_str) s
       else if ch = KEY_BACKSPACE \<or> ch = 127 \<or> ch = 8 then
         (if length input_str > 0 then input_loop (butlast input_str) (emit Delch_left s)
          else input_loop input_str s)
       else (case chr ch of
               None \<Rightarrow> Raised ValueError s
             | Some c \<Rightarrow> input_loop (input_str @ [c]) s))"
  by pat_completeness auto
termination
  by (relation "measure (\<lambda>(b, s). length (keys s))")
     (auto simp: emit_def dest: getch_keys)

declare input_loop.simps [simp del]

definition get_user_input :: "str \<Rightarrow> int \<Rightarrow> int \<Rightarrow> state \<Rightarrow> str option result" where
  "get_user_input prompt row col s =
     (let s = addstr row col prompt None s;
          s = emit (Move row (col + int (length prompt))) s;
          s = emit Refresh s;
          s = emit Echo s
      in bind (input_loop [] s) (\<lambda>r s.
           case r of
             None \<Rightarrow> Ok None s
           | Some input_str \<Rightarrow> Ok (Some (strip input_str)) (emit Noecho s)))"

section \<open>draw_header\<close>

text \<open>The two quote characters, for the command lines and messages that contain them.\<close>

definition dquote :: str where
  "dquote = [34]"

definition apostrophe :: str where
  "apostrophe = [39]"

definition draw_header :: "env \<Rightarrow> state \<Rightarrow> state" where
  "draw_header e s =
     (let width = win_width e;
          (repo_name, s) =
            (if \<not> git_dir e (cmds s) then (py ''Not a Git Repository'', s)
             else
               let ((remote_out, code), s) = run_command e (py ''git remote get-url origin'') s
               in if code = 0 \<and> strip remote_out \<noteq> [] then
                    let repo_name = last_segment (strip remote_out)
                    in (if endswith repo_name (py ''.git'')
                        then take (length repo_name - 4) repo_name else repo_name, s)
                  else (py ''Local Git Repository'', s));
          header_str = py '' Repository: '' @ repo_name @ py '' '';
          start_x = max ((width - int (length header_str)) div 2) 0;
          s = emit (Attron (Color_pair 1)) s;
          s = addstr 0 0 (replicate (nat width) 32) None s;
          s = addstr 0 start_x header_str None s;
          s = emit (Attroff (Color_pair 1)) s
      in emit (Hline 1 0 ACS_HLINE width) s)"

section \<open>Main menu functions\<close>

text \<open>
  Every handler ends with \<open>stdscr.getch()\<close> ("Press any key to continue...") and
  \<open>return True\<close>.
\<close>

definition press_any_key :: "state \<Rightarrow> bool result" where
  "press_any_key s = bind (getch s) (\<lambda>_ s. Ok True s)"

definition commit_and_push_all :: "env \<Rightarrow> state \<Rightarrow> bool result" where
  "commit_and_push_all e s =
     (let s = emit Clear s;
          s = draw_header e s
      in bind (get_user_input (py ''Enter commit message (default: auto commit): '') 4 2 s)
           (\<lambda>commit_msg s.
              case commit_msg of
                None \<Rightarrow> Ok False s
              | Some commit_msg \<Rightarrow>
                  let commit_msg = (if commit_msg = [] then py ''auto commit'' else commit_msg);
                      s = addstr 6 2 (py ''Staging all files...'') (Some A_BOLD) s;
                      s = emit Refresh s;
                      (_, s) = run_command e (py ''git add -A'') s;
                      s = addstr 7 2 (py ''Committing changes...'') (Some A_BOLD) s;
                      s = emit Refresh s;
                      ((out_commit, code_commit), s) =
                        run_command e (py ''git commit -m '' @ dquote @ commit_msg @ dquote) s;
                      s = (if code_commit = 0
                           then addstr 8 2 (py ''Changes committed.'') (Some (Color_pair 4)) s
                           else if contains (lower out_commit) (py ''nothing to commit'')
                           then addstr 8 2 (py ''Nothing to commit.'') (Some (Color_pair 3)) s
                           else addstr 9 2 out_commit (Some (Color_pair 3))
                                  (addstr 8 2 (py ''Error during commit:'')
                                     (Some (Color_pair 3)) s));
                      s = addstr 10 2 (py ''Pushing changes...'') (Some A_BOLD) s;
                      s = emit Refresh s;
                      ((out_push, code_push), s) = run_command e (py ''git push'') s;
                      s = (if code_push = 0
                           then addstr 11 2 (py ''Push successful.'') (Some (Color_pair 4)) s
                           else addstr 12 2 out_push (Some (Color_pair 3))
                                  (addstr 11 2 (py ''Error during push:'')
                                     (Some (Color_pair 3)) s));
                      s = addstr 14 2 (py ''Press any key to continue...'') None s
                  in press_any_key s))"

text \<open>
  \<open>pull_all\<close>, \<open>pull_repo\<close> and \<open>push_repo\<close> differ only in the command, the banner and
  the words of the two status lines; \<open>run_and_report\<close> is the body they share.
\<close>

definition run_and_report :: "env \<Rightarrow> str \<Rightarrow> str \<Rightarrow> str \<Rightarrow> str \<Rightarrow> state \<Rightarrow> bool result" where
  "run_and_report e banner command good bad s =
     (let s = emit Clear s;
          s = draw_header e s;
          s = addstr 4 2 banner (Some A_BOLD) s;
          s = emit Refresh s;
          ((out, code), s) = run_command e command s;
          s = (if code = 0 then addstr 6 2 good (Some (Color_pair 4)) s
               else addstr 7 2 out (Some (Color_pair 3))
                      (addstr 6 2 bad (Some (Color_pair 3)) s));
          s = addstr 9 2 (py ''Press any key to continue...'') None s
      in press_any_key s)"

definition pull_all :: "env \<Rightarrow> state \<Rightarrow> bool result" where
  "pull_all e s =
     run_and_report e (py ''Pulling changes from remote...'') (py ''git pull'')
       (py ''Pull successful.'') (py ''Error during pull:'') s"

definition create_issue :: "env \<Rightarrow> state \<Rightarrow> bool result" where
  "create_issue e s =
     (let s = emit Clear s;
          s = draw_header e s
      in bind (get_user_input (py ''Enter issue title: '') 4 2 s) (\<lambda>title s.
           if title = None \<or> title = Some [] then Ok False s
           else
             bind (get_user_input (py ''Enter issue body (optional): '') 6 2 s) (\<lambda>body s.
               let cmd = py ''gh issue create --title '' @ dquote @ the title @ dquote;
                   cmd = (if body \<noteq> None \<and> body \<noteq> Some []
                          then cmd @ py '' --body '' @ dquote @ the body @ dquote else cmd);
                   s = addstr 8 2 (py ''Creating issue...'') (Some A_BOLD) s;
                   s = emit Refresh s;
                   ((out, code), s) = run_command e cmd s;
                   s = (if code = 0
                        then addstr 10 2 (py ''Issue created successfully.'')
                               (Some (Color_pair 4)) s
                        else addstr 11 2 out (Some (Color_pair 3))
                               (addstr 10 2 (py ''Error creating issue:'')
                                  (Some (Color_pair 3)) s));
                   s = addstr 13 2 (py ''Press any key to continue...'') None s
               in press_any_key s)))"

section \<open>Advanced menu functions\<close>

definition create_github_repo :: "env \<Rightarrow> state \<Rightarrow> bool result" where
  "create_github_repo e s =
     (let s = emit Clear s;
          s = draw_header e s
      in if \<not> git_dir e (cmds s) then Ok False s
         else
           let s = addstr 4 2 (py ''Staging all files...'') (Some A_BOLD) s;
               s = emit Refresh s;
               (_, s) = run_command e (py ''git add -A'') s;
               s = addstr 5 2 (py ''Creating initial commit...'') (Some A_BOLD) s;
               s = emit Refresh s;
               ((out_commit, code_commit), s) =
                 run_command e
                   (py ''git commit -m '' @ apostrophe @ py ''Initial commit'' @ apostrophe) s;
               s = (if code_commit \<noteq> 0 then
                      (if contains (lower out_commit) (py ''nothing to commit'')
                       then addstr 6 2 (py ''Nothing to commit, proceeding...'')
                              (Some (Color_pair 3)) s
                       else addstr 7 2 out_commit (Some (Color_pair 3))
                              (addstr 6 2 (py ''Error during commit:'')
                                 (Some (Color_pair 3)) s))
                    else addstr 6 2 (py ''Initial commit created.'') (Some (Color_pair 4)) s)
           in bind (get_user_input (py ''Enter new repository name: '') 8 2 s) (\<lambda>repo_name s.
                if repo_name = None \<or> repo_name = Some [] then Ok False s
                else
                  bind (get_user_input (py ''Make repository private? (y/n): '') 10 2 s)
                    (\<lambda>vis_input s.
                       case vis_input of
                         None \<Rightarrow> Ok False s
                       | Some vis_input \<Rightarrow>
                           let visibility = (if lower (strip vis_input) = py ''y''
                                             then py ''--private'' else py ''--public'');
                               gh_cmd = py ''gh repo create '' @ the repo_name @ py '' ''
                                        @ visibility
                                        @ py '' --source=. --remote=origin --push --confirm'';
                               s = addstr 12 2
                                     (py ''Creating GitHub repository '' @ apostrophe
                                      @ the repo_name @ apostrophe @ py '' as ''
                                      @ drop 2 visibility @ py ''...'')
                                     (Some A_BOLD) s;
                               s = emit Refresh s;
                               ((out_gh, code_gh), s) = run_command e gh_cmd s;
                               s = (if code_gh = 0
                                    then addstr 14 2
                                           (py ''GitHub repository created and pushed successfully.'')
                                           (Some (Color_pair 4)) s
                                    else addstr 15 2 out_gh (Some (Color_pair 3))
                                           (addstr 14 2 (py ''Error creating GitHub repository:'')
                                              (Some (Color_pair 3)) s));
                               s = addstr 17 2 (py ''Press any key to continue...'') None s
                           in press_any_key s)))"

definition add_files :: "env \<Rightarrow> state \<Rightarrow> bool result" where
  "add_files e s =
     (let s = emit Clear s;
          s = draw_header e s
      in bind (get_user_input (py ''Enter file pattern to add (blank for all): '') 4 2 s)
           (\<lambda>pattern s.
              case pattern of
                None \<Rightarrow> Ok False s
              | Some pattern \<Rightarrow>
                  let cmd = (if pattern = [] then py ''git add -A''
                             else py ''git add '' @ pattern);
                      ((out, code), s) = run_command e cmd s;
                      s = (if code = 0
                           then addstr 6 2 (py ''Files added successfully.'')
                                  (Some (Color_pair 4)) s
                           else addstr 7 2 out (Some (Color_pair 3))
                                  (addstr 6 2 (py ''Error adding files:'')
                                     (Some (Color_pair 3)) s));
                      s = addstr 9 2 (py ''Press any key to continue...'') None s
                  in press_any_key s))"

definition commit_changes :: "env \<Rightarrow> state \<Rightarrow> bool result" where
  "commit_changes e s =
     (let s = emit Clear s;
          s = draw_header e s
      in bind (get_user_input (py ''Enter commit message (default: auto commit): '') 4 2 s)
           (\<lambda>commit_msg s.
              case commit_msg of
                None \<Rightarrow> Ok False s
              | Some commit_msg \<Rightarrow>
                  let commit_msg = (if commit_msg = [] then py ''auto commit'' else commit_msg);
                      s = addstr 6 2 (py ''Staging all files...'') (Some A_BOLD) s;
                      s = emit Refresh s;
                      (_, s) = run_command e (py ''git add -A'') s;
                      s = addstr 7 2 (py ''Committing changes...'') (Some A_BOLD) s;
                      s = emit Refresh s;
                      ((out_commit, code_commit), s) =
                        run_command e (py ''git commit -m '' @ dquote @ commit_msg @ dquote) s;
                      s = (if code_commit = 0
                           then addstr 8 2 (py ''Changes committed.'') (Some (Color_pair 4)) s
                           else if contains (lower out_commit) (py ''nothing to commit'')
                           then addstr 8 2 (py ''Nothing to commit.'') (Some (Color_pair 3)) s
                           else addstr 9 2 out_commit (Some (Color_pair 3))
                                  (addstr 8 2 (py ''Error during commit:'')
                                     (Some (Color_pair 3)) s));
                      s = addstr 11 2 (py ''Press any key to continue...'') None s
                  in press_any_key s))"

definition push_repo :: "env \<Rightarrow> state \<Rightarrow> bool result" where
  "push_repo e s =
     run_and_report e (py ''Pushing changes to remote...'') (py ''git push'')
       (py ''Push successful.'') (py ''Error during push:'') s"

definition pull_repo :: "env \<Rightarrow> state \<Rightarrow> bool result" where
  "pull_repo e s =
     run_and_report e (py ''Pulling changes from remote...'') (py ''git pull'')
       (py ''Pull successful.'') (py ''Error during pull:'') s"

text \<open>
  The loop of \<open>git_status\<close>, \<open>view_log\<close> and \<open>show_diff\<close> that prints the output line by
  line and stops when the next row would reach \<open>curses.LINES - 2\<close>; it yields the row
  reached.
\<close>

fun print_lines :: "env \<Rightarrow> int \<Rightarrow> str list \<Rightarrow> state \<Rightarrow> int \<times> state" where
  "print_lines e row [] s = (row, s)"
| "print_lines e row (line # rest) s =
     (let s = addstr row 2 line None s;
          row = row + 1
      in if row \<ge> LINES e - 2 then (row, s) else print_lines e row rest s)"

definition git_status :: "env \<Rightarrow> state \<Rightarrow> bool result" where
  "git_status e s =
     (let s = emit Clear s;
          s = draw_header e s;
          ((out, _), s) = run_command e (py ''git status'') s;
          (row, s) = print_lines e 4 (splitlines out) s;
          s = addstr (row + 1) 2 (py ''Press any key to continue...'') None s
      in press_any_key s)"

definition view_log :: "env \<Rightarrow> state \<Rightarrow> bool result" where
  "view_log e s =
     (let s = emit Clear s;
          s = draw_header e s;
          s = addstr 4 2 (py ''Recent commit log (last 10 commits):'') (Some A_BOLD) s;
          ((out, _), s) = run_command e (py ''git log --oneline -n 10'') s;
          (row, s) = print_lines e 6 (splitlines out) s;
          s = addstr (row + 1) 2 (py ''Press any key to continue...'') None s
      in press_any_key s)"

definition show_diff :: "env \<Rightarrow> state \<Rightarrow> bool result" where
  "show_diff e s =
     (let s = emit Clear s;
          s = draw_header e s;
          s = addstr 4 2 (py ''Diff:'') (Some A_BOLD) s;
          ((out, _), s) = run_command e (py ''git diff'') s;
          (row, s) = print_lines e 6 (splitlines out) s;
          s = addstr (row + 1) 2 (py ''Press any key to continue...'') None s
      in press_any_key s)"

section \<open>Menu navigation functions\<close>

text \<open>\<open>xs[i]\<close>: a negative index counts from the end; out of range raises IndexError.\<close>

definition index :: "'a list \<Rightarrow> int \<Rightarrow> state \<Rightarrow> 'a result" where
  "index xs i s =
     (if 0 \<le> i \<and> i < int (length xs) then Ok (xs ! nat i) s
      else if - int (length xs) \<le> i \<and> i < 0 then Ok (xs ! nat (int (length xs) + i)) s
      else Raised IndexError s)"

text \<open>
  What both menu loops draw at the top of each iteration: the header, the options with
  the selected one highlighted, and the lines of \<open>git status --short\<close> below them.
\<close>

fun draw_options :: "int \<Rightarrow> int \<Rightarrow> str list \<Rightarrow> state \<Rightarrow> state" where
  "draw_options current_row idx [] s = s"
| "draw_options current_row idx (option # rest) s =
     draw_options current_row (idx + 1) rest
       (if idx = current_row
        then emit (Attroff (Color_pair 2))
               (addstr (4 + idx) 2 option None (emit (Attron (Color_pair 2)) s))
        else addstr (4 + idx) 2 option None s)"

fun draw_status_lines :: "int \<Rightarrow> int \<Rightarrow> str list \<Rightarrow> state \<Rightarrow> state" where
  "draw_status_lines start_row i [] s = s"
| "draw_status_lines start_row i (line # rest) s =
     draw_status_lines start_row (i + 1) rest (addstr (start_row + 1 + i) 2 line None s)"

definition draw_menu :: "env \<Rightarrow> str list \<Rightarrow> int \<Rightarrow> state \<Rightarrow> state" where
  "draw_menu e options current_row s =
     (let s = emit Clear s;
          s = draw_header e s;
          s = draw_options current_row 0 options s;
          ((status_out, _), s) = run_command e (py ''git status --short'') s;
          status_lines = splitlines status_out;
          start_row = 4 + int (length options) + 2;
          s = emit (Hline start_row 0 (Glyph 45) (COLS e)) s;
          s = addstr start_row 2 (py ''File Status (git status --short):'') None s;
          available_rows = LINES e - (start_row + 2);
          s = draw_status_lines start_row 0 (slice_to status_lines available_rows) s
      in emit Refresh s)"

definition adv_options :: "str list" where
  "adv_options =
     [py ''Create GitHub Repository'', py ''Add Files'', py ''Commit Changes'',
      py ''Push to Remote'', py ''Pull from Remote'', py ''Git Status'', py ''Create Issue'',
      py ''View Log'', py ''Show Diff'', py ''Back to Main Menu'']"

text \<open>
  A handler's result as the dispatch of \<open>advanced_menu\<close> sees it: \<open>Some result\<close>, where
  \<open>None\<close> stands for the \<open>break\<close> of the entry "Back to Main Menu".
\<close>

definition ran :: "bool result \<Rightarrow> bool option result" where
  "ran r = bind r (\<lambda>result s. Ok (Some result) s)"

text \<open>
  One iteration of the loop of \<open>advanced_menu\<close>: \<open>None\<close> where the source leaves the loop
  by \<open>break\<close>, otherwise the value of \<open>current_row\<close> for the next iteration. The last
  branch of the dispatch, where \<open>result\<close> would be read unassigned, is never reached:
  every entry of \<open>adv_options\<close> is matched by a branch above it.
\<close>

definition advanced_menu_body :: "env \<Rightarrow> int \<Rightarrow> state \<Rightarrow> int option result" where
  "advanced_menu_body e current_row s =
     (let s = draw_menu e adv_options current_row s
      in bind (getch s) (\<lambda>key s.
           if key = 27 \<or> key = KEY_LEFT then Ok None s
           else if key = KEY_UP
           then Ok (Some ((current_row - 1) mod int (length adv_options))) s
           else if key = KEY_DOWN
           then Ok (Some ((current_row + 1) mod int (length adv_options))) s
           else if key = KEY_ENTER \<or> key = 10 \<or> key = 13 \<or> key = KEY_RIGHT then
             bind (index adv_options current_row s) (\<lambda>selected s.
               bind (if selected = py ''Create GitHub Repository''
                     then ran (create_github_repo e s)
                     else if selected = py ''Add Files'' then ran (add_files e s)
                     else if selected = py ''Commit Changes'' then ran (commit_changes e s)
                     else if selected = py ''Push to Remote'' then ran (push_repo e s)
                     else if selected = py ''Pull from Remote'' then ran (pull_repo e s)
                     else if selected = py ''Git Status'' then ran (git_status e s)
                     else if selected = py ''Create Issue'' then ran (create_issue e s)
                     else if selected = py ''View Log'' then ran (view_log e s)
                     else if selected = py ''Show Diff'' then ran (show_diff e s)
                     else if selected = py ''Back to Main Menu'' then Ok None s
                     else Raised UnboundLocalError s)
                 (\<lambda>result s.
                    case result of
                      None \<Rightarrow> Ok None s
                    | Some result \<Rightarrow> Ok (Some (if result then 0 else current_row)) s))
           else Ok (Some current_row) s))"

section \<open>Every call that returns has consumed keys\<close>

text \<open>
  The menu loops end because each iteration reads a key and no handler puts keys back:
  the facts below are what the termination proofs of the two loops need.
\<close>

lemma keys_emit [simp]: "keys (emit c s) = keys s"
  by (simp add: emit_def)

lemma keys_addstr [simp]: "keys (addstr r c t a s) = keys s"
  by (simp add: addstr_def)

lemma keys_run_command [simp]: "keys (snd (run_command e c s)) = keys s"
  by (simp add: run_command_def)

lemma keys_draw_header [simp]: "keys (draw_header e s) = keys s"
  by (simp add: draw_header_def Let_def case_prod_beta)

lemma keys_print_lines [simp]: "keys (snd (print_lines e row ls s)) = keys s"
  by (induction e row ls s rule: print_lines.induct) (simp_all add: Let_def)

lemma keys_draw_options [simp]: "keys (draw_options cr idx os s) = keys s"
  by (induction cr idx os s rule: draw_options.induct) simp_all

lemma keys_draw_status_lines [simp]: "keys (draw_status_lines sr i ls s) = keys s"
  by (induction sr i ls s rule: draw_status_lines.induct) simp_all

lemma keys_draw_menu [simp]: "keys (draw_menu e os cr s) = keys s"
  by (simp add: draw_menu_def Let_def case_prod_beta)

lemma bind_Ok: "bind r f = Ok b t \<Longrightarrow> \<exists>a s. r = Ok a s \<and> f a s = Ok b t"
  by (cases r) (simp_all add: bind_def)

lemma input_loop_keys: "input_loop b s = Ok r s' \<Longrightarrow> length (keys s') < length (keys s)"
proof (induction b s rule: input_loop.induct)
  case (1 input_str s)
  from "1.prems" obtain ch s1 where g: "getch s = Ok ch s1"
    and body: "(if ch = 27 \<or> ch = KEY_LEFT then Ok None (emit Noecho s1)
       else if ch = 10 \<or> ch = 13 then Ok (Some input_str) s1
       else if ch = KEY_BACKSPACE \<or> ch = 127 \<or> ch = 8 then
         (if length input_str > 0 then input_loop (butlast input_str) (emit Delch_left s1)
          else input_loop input_str s1)
       else (case chr ch of
               None \<Rightarrow> Raised ValueError s1
             | Some c \<Rightarrow> input_loop (input_str @ [c]) s1)) = Ok r s'"
    by (subst (asm) input_loop.simps) (auto dest!: bind_Ok)
  have lt: "length (keys s1) < length (keys s)" by (rule getch_keys [OF g])
  show ?case
    using body lt "1.IH" [OF g]
    by (auto split: if_splits option.splits)
qed

lemma get_user_input_keys:
  "get_user_input p row col s = Ok r s' \<Longrightarrow> length (keys s') < length (keys s)"
  by (auto simp: get_user_input_def Let_def dest!: bind_Ok input_loop_keys split: option.splits)

lemma press_any_key_keys: "press_any_key s = Ok r s' \<Longrightarrow> length (keys s') < length (keys s)"
  by (auto simp: press_any_key_def dest!: bind_Ok getch_keys)

lemma commit_and_push_all_keys:
  "commit_and_push_all e s = Ok r s' \<Longrightarrow> length (keys s') \<le> length (keys s)"
  by (auto simp: commit_and_push_all_def Let_def case_prod_beta
      dest!: bind_Ok get_user_input_keys press_any_key_keys split: option.splits if_splits)

lemma run_and_report_keys:
  "run_and_report e b c g d s = Ok r s' \<Longrightarrow> length (keys s') \<le> length (keys s)"
  by (auto simp: run_and_report_def Let_def case_prod_beta
      dest!: bind_Ok get_user_input_keys press_any_key_keys split: option.splits if_splits)

lemma create_issue_keys:
  "create_issue e s = Ok r s' \<Longrightarrow> length (keys s') \<le> length (keys s)"
  by (auto simp: create_issue_def Let_def case_prod_beta
      dest!: bind_Ok get_user_input_keys press_any_key_keys split: option.splits if_splits)

lemma create_github_repo_keys:
  "create_github_repo e s = Ok r s' \<Longrightarrow> length (keys s') \<le> length (keys s)"
  by (auto simp: create_github_repo_def Let_def case_prod_beta
      dest!: bind_Ok get_user_input_keys press_any_key_keys split: option.splits if_splits)

lemma add_files_keys:
  "add_files e s = Ok r s' \<Longrightarrow> length (keys s') \<le> length (keys s)"
  by (auto simp: add_files_def Let_def case_prod_beta
      dest!: bind_Ok get_user_input_keys press_any_key_keys split: option.splits if_splits)

lemma commit_changes_keys:
  "commit_changes e s = Ok r s' \<Longrightarrow> length (keys s') \<le> length (keys s)"
  by (auto simp: commit_changes_def Let_def case_prod_beta
      dest!: bind_Ok get_user_input_keys press_any_key_keys split: option.splits if_splits)

lemma git_status_keys:
  "git_status e s = Ok r s' \<Longrightarrow> length (keys s') \<le> length (keys s)"
  by (auto simp: git_status_def Let_def case_prod_beta
      dest!: bind_Ok press_any_key_keys)

lemma view_log_keys:
  "view_log e s = Ok r s' \<Longrightarrow> length (keys s') \<le> length (keys s)"
  by (auto simp: view_log_def Let_def case_prod_beta
      dest!: bind_Ok press_any_key_keys)

lemma show_diff_keys:
  "show_diff e s = Ok r s' \<Longrightarrow> length (keys s') \<le> length (keys s)"
  by (auto simp: show_diff_def Let_def case_prod_beta
      dest!: bind_Ok press_any_key_keys)

lemma index_Ok: "index xs i s = Ok a s' \<Longrightarrow> s' = s"
  by (auto simp: index_def Let_def split: if_splits)

lemma ran_Ok: "ran r = Ok a s' \<Longrightarrow> \<exists>b. r = Ok b s'"
  by (cases r) (auto simp: ran_def bind_def)

lemmas adv_handler_keys =
  create_github_repo_keys add_files_keys commit_changes_keys run_and_report_keys
  git_status_keys create_issue_keys view_log_keys show_diff_keys

lemma advanced_menu_body_keys:
  assumes "advanced_menu_body e row s = Ok r s'"
  shows "length (keys s') < length (keys s)"
proof -
  from assms obtain key s1 where g: "getch (draw_menu e adv_options row s) = Ok key s1"
    and rest: "(if key = 27 \<or> key = KEY_LEFT then Ok None s1
           else if key = KEY_UP
           then Ok (Some ((row - 1) mod int (length adv_options))) s1
           else if key = KEY_DOWN
           then Ok (Some ((row + 1) mod int (length adv_options))) s1
           else if key = KEY_ENTER \<or> key = 10 \<or> key = 13 \<or> key = KEY_RIGHT then
             bind (index adv_options row s1) (\<lambda>selected s.
               bind (if selected = py ''Create GitHub Repository''
                     then ran (create_github_repo e s)
                     else if selected = py ''Add Files'' then ran (add_files e s)
                     else if selected = py ''Commit Changes'' then ran (commit_changes e s)
                     else if selected = py ''Push to Remote'' then ran (push_repo e s)
                     else if selected = py ''Pull from Remote'' then ran (pull_repo e s)
                     else if selected = py ''Git Status'' then ran (git_status e s)
                     else if selected = py ''Create Issue'' then ran (create_issue e s)
                     else if selected = py ''View Log'' then ran (view_log e s)
                     else if selected = py ''Show Diff'' then ran (show_diff e s)
                     else if selected = py ''Back to Main Menu'' then Ok None s
                     else Raised UnboundLocalError s)
                 (\<lambda>result s.
                    case result of
                      None \<Rightarrow> Ok None s
                    | Some result \<Rightarrow> Ok (Some (if result then 0 else row)) s))
           else Ok (Some row) s1) = Ok r s'"
    by (auto simp: advanced_menu_body_def Let_def dest!: bind_Ok)
  have lt: "length (keys s1) < length (keys s)"
    using getch_keys [OF g] by simp
  have le: "length (keys s') \<le> length (keys s1)"
    using rest
    by (auto simp: push_repo_def pull_repo_def
        split: if_splits option.splits dest!: bind_Ok index_Ok ran_Ok dest: adv_handler_keys)
  from lt le show ?thesis by simp
qed

section \<open>advanced_menu\<close>

text \<open>
  The \<open>while True\<close> loop of \<open>advanced_menu\<close> runs its body until the body leaves it;
  \<open>advanced_menu\<close> hides the cursor and enters the loop with \<open>current_row = 0\<close>.
\<close>

function advanced_menu_loop :: "env \<Rightarrow> int \<Rightarrow> state \<Rightarrow> unit result" where
  "advanced_menu_loop e current_row s =
     bind (advanced_menu_body e current_row s) (\<lambda>next s.
       case next of
         None \<Rightarrow> Ok () s
       | Some current_row \<Rightarrow> advanced_menu_loop e current_row s)"
  by pat_completeness auto
termination
  by (relation "measure (\<lambda>(e, row, s). length (keys s))")
     (auto dest: advanced_menu_body_keys)

declare advanced_menu_loop.simps [simp del]

definition advanced_menu :: "env \<Rightarrow> state \<Rightarrow> unit result" where
  "advanced_menu e s = advanced_menu_loop e 0 (emit (Curs_set 0) s)"

lemma advanced_menu_loop_keys:
  "advanced_menu_loop e row s = Ok r s' \<Longrightarrow> length (keys s') < length (keys s)"
proof (induction e row s rule: advanced_menu_loop.induct)
  case (1 e row s)
  from "1.prems" obtain nxt s1 where b: "advanced_menu_body e row s = Ok nxt s1"
    and c: "(case nxt of None \<Rightarrow> Ok () s1 | Some row' \<Rightarrow> advanced_menu_loop e row' s1) = Ok r s'"
    by (subst (asm) advanced_menu_loop.simps) (auto dest!: bind_Ok)
  show ?case
    using advanced_menu_body_keys [OF b] c "1.IH" [OF b]
    by (auto split: option.splits)
qed

lemma advanced_menu_keys:
  "advanced_menu e s = Ok r s' \<Longrightarrow> length (keys s') < length (keys s)"
  by (auto simp: advanced_menu_def dest!: advanced_menu_loop_keys)

section \<open>main_menu\<close>

text \<open>
  One iteration of the loop of \<open>main_menu\<close>, as for the advanced menu. The entry
  "Advanced menu" calls \<open>advanced_menu\<close> and then sets \<open>result = True\<close>. The loop is left
  by Escape or Left only, which ends the program: \<open>main\<close> does nothing after \<open>main_menu\<close>
  (its colour setup and the signal handlers are outside this model).
\<close>

definition menu_options :: "str list" where
  "menu_options =
     [py ''Commit & Push all'', py ''Pull all'', py ''Create Issue'', py ''Advanced menu'']"

definition main_menu_body :: "env \<Rightarrow> int \<Rightarrow> state \<Rightarrow> int option result" where
  "main_menu_body e current_row s =
     (let s = draw_menu e menu_options current_row s
      in bind (getch s) (\<lambda>key s.
           if key = 27 \<or> key = KEY_LEFT then Ok None s
           else if key = KEY_UP
           then Ok (Some ((current_row - 1) mod int (length menu_options))) s
           else if key = KEY_DOWN
           then Ok (Some ((current_row + 1) mod int (length menu_options))) s
           else if key = KEY_ENTER \<or> key = 10 \<or> key = 13 \<or> key = KEY_RIGHT then
             bind (index menu_options current_row s) (\<lambda>selected s.
               bind (if selected = py ''Commit & Push all'' then commit_and_push_all e s
                     else if selected = py ''Pull all'' then pull_all e s
                     else if selected = py ''Create Issue'' then create_issue e s
                     else if selected = py ''Advanced menu''
                     then bind (advanced_menu e s) (\<lambda>_ s. Ok True s)
                     else Raised UnboundLocalError s)
                 (\<lambda>result s. Ok (Some (if result then 0 else current_row)) s))
           else Ok (Some current_row) s))"

lemma main_menu_body_keys:
  assumes "main_menu_body e row s = Ok r s'"
  shows "length (keys s') < length (keys s)"
proof -
  from assms obtain key s1 where g: "getch (draw_menu e menu_options row s) = Ok key s1"
    and rest: "(if key = 27 \<or> key = KEY_LEFT then Ok None s1
           else if key = KEY_UP
           then Ok (Some ((row - 1) mod int (length menu_options))) s1
           else if key = KEY_DOWN
           then Ok (Some ((row + 1) mod int (length menu_options))) s1
           else if key = KEY_ENTER \<or> key = 10 \<or> key = 13 \<or> key = KEY_RIGHT then
             bind (index menu_options row s1) (\<lambda>selected s.
               bind (if selected = py ''Commit & Push all'' then commit_and_push_all e s
                     else if selected = py ''Pull all'' then pull_all e s
                     else if selected = py ''Create Issue'' then create_issue e s
                     else if selected = py ''Advanced menu''
                     then bind (advanced_menu e s) (\<lambda>_ s. Ok True s)
                     else Raised UnboundLocalError s)
                 (\<lambda>result s. Ok (Some (if result then 0 else row)) s))
           else Ok (Some row) s1) = Ok r s'"
    by (auto simp: main_menu_body_def Let_def dest!: bind_Ok)
  have lt: "length (keys s1) < length (keys s)"
    using getch_keys [OF g] by simp
  have le: "length (keys s') \<le> length (keys s1)"
    using rest
    by (auto simp: pull_all_def
        split: if_splits dest!: bind_Ok index_Ok commit_and_push_all_keys run_and_report_keys
          create_issue_keys advanced_menu_keys)
  from lt le show ?thesis by simp
qed

function main_menu_loop :: "env \<Rightarrow> int \<Rightarrow> state \<Rightarrow> unit result" where
  "main_menu_loop e current_row s =
     bind (main_menu_body e current_row s) (\<lambda>next s.
       case next of
         None \<Rightarrow> Ok () s
       | Some current_row \<Rightarrow> main_menu_loop e current_row s)"
  by pat_completeness auto
termination
  by (relation "measure (\<lambda>(e, row, s). length (keys s))")
     (auto dest: main_menu_body_keys)

declare main_menu_loop.simps [simp del]

definition main_menu :: "env \<Rightarrow> state \<Rightarrow> unit result" where
  "main_menu e s = main_menu_loop e 0 (emit (Curs_set 0) s)"

section \<open>Vocabulary of the claims\<close>

subsection \<open>Sessions of keys\<close>

text \<open>
  The reading of a prompt in the words of the specification: a backspace key (curses'
  \<open>KEY_BACKSPACE\<close>, 127 or 8) removes the last buffered character, any other key that
  is neither Enter nor a cancel key appends the character with its code.
  \<open>edit_buffer buf ks\<close> is the buffer after the keys \<open>ks\<close>, starting from \<open>buf\<close>.
\<close>

definition is_backspace :: "int \<Rightarrow> bool" where
  "is_backspace k = (k = KEY_BACKSPACE \<or> k = 127 \<or> k = 8)"

definition is_char_key :: "int \<Rightarrow> bool" where
  "is_char_key k =
     (0 \<le> k \<and> k < 1114112 \<and> k \<noteq> 27 \<and> k \<noteq> KEY_LEFT \<and> k \<noteq> 10 \<and> k \<noteq> 13
      \<and> \<not> is_backspace k)"

fun edit_buffer :: "str \<Rightarrow> int list \<Rightarrow> str" where
  "edit_buffer buf [] = buf"
| "edit_buffer buf (k # ks) =
     (if is_backspace k then edit_buffer (butlast buf) ks else edit_buffer (buf @ [nat k]) ks)"

subsection \<open>Commands and prompts of the handlers\<close>

text \<open>
  \<open>header_cmds e h\<close> is what \<open>draw_header\<close> hands to the shell when the commands \<open>h\<close>
  have been run before it: the lookup of the remote, inside a Git repository only.
  \<open>commit_cmd m\<close> is the command line of a commit with message \<open>m\<close>, and
  \<open>initial_commit_cmd\<close> the one of the first commit of \<open>create_github_repo\<close>.
\<close>

definition header_cmds :: "env \<Rightarrow> str list \<Rightarrow> str list" where
  "header_cmds e h = (if git_dir e h then [py ''git remote get-url origin''] else [])"

definition commit_cmd :: "str \<Rightarrow> str" where
  "commit_cmd m = py ''git commit -m '' @ dquote @ m @ dquote"

definition initial_commit_cmd :: str where
  "initial_commit_cmd = py ''git commit -m '' @ apostrophe @ py ''Initial commit'' @ apostrophe"

text \<open>
  \<open>initial_commit\<close> is the part of \<open>create_github_repo\<close> between the test for a Git
  repository and the first prompt: staging, the first commit and its status line
  (\<open>create_github_repo_unfold\<close> below states the handler with it).
\<close>

definition initial_commit :: "env \<Rightarrow> state \<Rightarrow> state" where
  "initial_commit e s =
     (let s = addstr 4 2 (py ''Staging all files...'') (Some A_BOLD) s;
          s = emit Refresh s;
          (_, s) = run_command e (py ''git add -A'') s;
          s = addstr 5 2 (py ''Creating initial commit...'') (Some A_BOLD) s;
          s = emit Refresh s;
          ((out_commit, code_commit), s) = run_command e initial_commit_cmd s
      in if code_commit \<noteq> 0 then
           (if contains (lower out_commit) (py ''nothing to commit'')
            then addstr 6 2 (py ''Nothing to commit, proceeding...'') (Some (Color_pair 3)) s
            else addstr 7 2 out_commit (Some (Color_pair 3))
                   (addstr 6 2 (py ''Error during commit:'') (Some (Color_pair 3)) s))
         else addstr 6 2 (py ''Initial commit created.'') (Some (Color_pair 4)) s)"

text \<open>
  The prompts, each in the state in which its handler calls it: \<open>opened e s\<close> is the
  state after the handler has cleared the window and drawn the header, and a second prompt
  starts in the state in which the first one returned.
\<close>

abbreviation opened :: "env \<Rightarrow> state \<Rightarrow> state" where
  "opened e s \<equiv> draw_header e (emit Clear s)"

abbreviation ask_message :: "env \<Rightarrow> state \<Rightarrow> str option result" where
  "ask_message e s \<equiv>
     get_user_input (py ''Enter commit message (default: auto commit): '') 4 2 (opened e s)"

abbreviation ask_pattern :: "env \<Rightarrow> state \<Rightarrow> str option result" where
  "ask_pattern e s \<equiv>
     get_user_input (py ''Enter file pattern to add (blank for all): '') 4 2 (opened e s)"

abbreviation ask_title :: "env \<Rightarrow> state \<Rightarrow> str option result" where
  "ask_title e s \<equiv> get_user_input (py ''Enter issue title: '') 4 2 (opened e s)"

abbreviation ask_body :: "env \<Rightarrow> state \<Rightarrow> str option result" where
  "ask_body e s \<equiv>
     get_user_input (py ''Enter issue body (optional): '') 6 2 (state_of (ask_title e s))"

abbreviation ask_name :: "env \<Rightarrow> state \<Rightarrow> str option result" where
  "ask_name e s \<equiv>
     get_user_input (py ''Enter new repository name: '') 8 2 (initial_commit e (opened e s))"

abbreviation ask_visibility :: "env \<Rightarrow> state \<Rightarrow> str option result" where
  "ask_visibility e s \<equiv>
     get_user_input (py ''Make repository private? (y/n): '') 10 2 (state_of (ask_name e s))"

subsection \<open>Iterations of a menu loop\<close>

text \<open>
  \<open>iterations body n current_row s\<close> runs the body of a menu loop \<open>n\<close> times from the
  selection \<open>current_row\<close>: it yields the selection reached, or \<open>None\<close> if the loop was
  left on the way. \<open>net_delta ks\<close> counts each Down key of \<open>ks\<close> as +1 and each Up key as -1.
\<close>

fun iterations ::
  "(int \<Rightarrow> state \<Rightarrow> int option result) \<Rightarrow> nat \<Rightarrow> int \<Rightarrow> state \<Rightarrow> int option result" where
  "iterations body 0 current_row s = Ok (Some current_row) s"
| "iterations body (Suc n) current_row s =
     bind (body current_row s) (\<lambda>next s.
       case next of
         None \<Rightarrow> Ok None s
       | Some current_row \<Rightarrow> iterations body n current_row s)"

definition net_delta :: "int list \<Rightarrow> int" where
  "net_delta ks =
     int (length (filter (\<lambda>k. k = KEY_DOWN) ks)) - int (length (filter (\<lambda>k. k = KEY_UP) ks))"

subsection \<open>Sample runs\<close>

text \<open>
  \<open>start ks\<close> is a fresh run with the keys \<open>ks\<close> waiting. \<open>repo_env\<close> is a Git repository
  in which every command succeeds without output; in \<open>clean_env\<close> the commit finds nothing
  to commit, in \<open>broken_env\<close> it fails for another reason; \<open>plain_env\<close> is a directory
  that is no Git repository.
\<close>

definition start :: "int list \<Rightarrow> state" where
  "start ks = \<lparr>keys = ks, cmds = [], screen = []\<rparr>"

definition repo_env :: env where
  "repo_env = \<lparr>respond = (\<lambda>h c. ([], 0)), git_dir = (\<lambda>h. True),
                win_width = 80, LINES = 24, COLS = 80\<rparr>"

definition clean_env :: env where
  "clean_env =
     \<lparr>respond = (\<lambda>h c. if take 10 c = py ''git commit''
                         then (py ''nothing to commit, working tree clean'', 1) else ([], 0)),
      git_dir = (\<lambda>h. True), win_width = 80, LINES = 24, COLS = 80\<rparr>"


definition plain_env :: env where
  "plain_env = \<lparr>respond = (\<lambda>h c. (py ''fatal: not a git repository'', 128)),
                 git_dir = (\<lambda>h. False), win_width = 80, LINES = 24, COLS = 80\<rparr>"

section \<open>Line input: what a session of keys returns\<close>

lemma getch_Cons: "keys s = k # ks \<Longrightarrow> getch s = Ok k (s\<lparr>keys := ks\<rparr>)"
  by (simp add: getch_def)

lemma input_loop_typing:
  "keys s = ks @ k # rest \<Longrightarrow> list_all (\<lambda>k. is_backspace k \<or> is_char_key k) ks \<Longrightarrow>
   \<exists>scr. input_loop buf s = input_loop (edit_buffer buf ks) (s\<lparr>keys := k # rest, screen := scr\<rparr>)"
proof (induction ks arbitrary: buf s)
  case Nil
  then have "s = s\<lparr>keys := k # rest, screen := screen s\<rparr>" by simp
  then show ?case by (metis edit_buffer.simps(1))
next
  case (Cons a ks)
  have g: "getch s = Ok a (s\<lparr>keys := ks @ k # rest\<rparr>)"
    using Cons.prems(1) by (simp add: getch_Cons)
  have typing: "list_all (\<lambda>k. is_backspace k \<or> is_char_key k) ks"
    using Cons.prems(2) by simp
  show ?case
  proof (cases "is_backspace a")
    case True
    then have a: "a \<noteq> 27" "a \<noteq> KEY_LEFT" "a \<noteq> 10" "a \<noteq> 13"
      by (auto simp: is_backspace_def key_defs)
    show ?thesis
    proof (cases "buf = []")
      case True
      have "input_loop buf s = input_loop buf (s\<lparr>keys := ks @ k # rest\<rparr>)"
        using g a \<open>is_backspace a\<close> True
        by (subst input_loop.simps) (simp add: bind_def is_backspace_def)
      moreover obtain scr where
        "input_loop buf (s\<lparr>keys := ks @ k # rest\<rparr>) =
         input_loop (edit_buffer buf ks) (s\<lparr>keys := ks @ k # rest\<rparr>\<lparr>keys := k # rest, screen := scr\<rparr>)"
        using Cons.IH [of "s\<lparr>keys := ks @ k # rest\<rparr>" buf] typing by auto
      ultimately show ?thesis
        using \<open>is_backspace a\<close> True by auto
    next
      case False
      have "input_loop buf s = input_loop (butlast buf) (emit Delch_left (s\<lparr>keys := ks @ k # rest\<rparr>))"
        using g a \<open>is_backspace a\<close> False
        by (subst input_loop.simps) (simp add: bind_def is_backspace_def)
      moreover obtain scr where
        "input_loop (butlast buf) (emit Delch_left (s\<lparr>keys := ks @ k # rest\<rparr>)) =
         input_loop (edit_buffer (butlast buf) ks)
           ((emit Delch_left (s\<lparr>keys := ks @ k # rest\<rparr>))\<lparr>keys := k # rest, screen := scr\<rparr>)"
        using Cons.IH [of "emit Delch_left (s\<lparr>keys := ks @ k # rest\<rparr>)" "butlast buf"] typing
        by auto
      ultimately show ?thesis
        using \<open>is_backspace a\<close> by (auto simp: emit_def)
    qed
  next
    case False
    then have c: "is_char_key a" using Cons.prems(2) by simp
    have "input_loop buf s = input_loop (buf @ [nat a]) (s\<lparr>keys := ks @ k # rest\<rparr>)"
      using g c
      by (subst input_loop.simps) (simp add: bind_def is_char_key_def is_backspace_def chr_def)
    moreover obtain scr where
      "input_loop (buf @ [nat a]) (s\<lparr>keys := ks @ k # rest\<rparr>) =
       input_loop (edit_buffer (buf @ [nat a]) ks)
         (s\<lparr>keys := ks @ k # rest\<rparr>\<lparr>keys := k # rest, screen := scr\<rparr>)"
      using Cons.IH [of "s\<lparr>keys := ks @ k # rest\<rparr>" "buf @ [nat a]"] typing by auto
    ultimately show ?thesis
      using False by auto
  qed
qed

lemma input_loop_enter:
  "keys s = enter # rest \<Longrightarrow> enter = 10 \<or> enter = 13 \<Longrightarrow>
   input_loop buf s = Ok (Some buf) (s\<lparr>keys := rest\<rparr>)"
  by (subst input_loop.simps) (auto simp: getch_Cons bind_def key_defs)

lemma input_loop_cancel:
  "keys s = c # rest \<Longrightarrow> c = 27 \<or> c = KEY_LEFT \<Longrightarrow>
   input_loop buf s = Ok None (emit Noecho (s\<lparr>keys := rest\<rparr>))"
  by (subst input_loop.simps) (auto simp: getch_Cons bind_def)

lemma keys_prompt [simp]:
  "keys (emit Echo (emit Refresh (emit (Move row c) (addstr row col p None s)))) = keys s"
  by simp

lemma cmds_emit [simp]: "cmds (emit c s) = cmds s"
  by (simp add: emit_def)

lemma cmds_addstr [simp]: "cmds (addstr r c t a s) = cmds s"
  by (simp add: addstr_def)


lemma session_enter:
  assumes "keys s = ks @ enter # rest"
    and "enter = 10 \<or> enter = 13"
    and "list_all (\<lambda>k. is_backspace k \<or> is_char_key k) ks"
  shows "value_of (get_user_input prompt row col s) = Some (Some (strip (edit_buffer [] ks)))
         \<and> keys (state_of (get_user_input prompt row col s)) = rest
         \<and> cmds (state_of (get_user_input prompt row col s)) = cmds s"
proof -
  let ?s = "emit Echo (emit Refresh (emit (Move row (col + int (length prompt)))
              (addstr row col prompt None s)))"
  have k: "keys ?s = ks @ enter # rest" using assms(1) by simp
  obtain scr where
    "input_loop [] ?s = input_loop (edit_buffer [] ks) (?s\<lparr>keys := enter # rest, screen := scr\<rparr>)"
    using input_loop_typing [OF k assms(3)] by blast
  then have "input_loop [] ?s =
      Ok (Some (edit_buffer [] ks)) (?s\<lparr>keys := enter # rest, screen := scr\<rparr>\<lparr>keys := rest\<rparr>)"
    using input_loop_enter [of "?s\<lparr>keys := enter # rest, screen := scr\<rparr>" enter rest] assms(2)
    by simp
  then show ?thesis
    by (simp add: get_user_input_def Let_def bind_def)
qed

lemma session_cancel:
  assumes "keys s = ks @ c # rest"
    and "c = 27 \<or> c = KEY_LEFT"
    and "list_all (\<lambda>k. is_backspace k \<or> is_char_key k) ks"
  shows "value_of (get_user_input prompt row col s) = Some None
         \<and> keys (state_of (get_user_input prompt row col s)) = rest
         \<and> cmds (state_of (get_user_input prompt row col s)) = cmds s"
proof -
  let ?s = "emit Echo (emit Refresh (emit (Move row (col + int (length prompt)))
              (addstr row col prompt None s)))"
  have k: "keys ?s = ks @ c # rest" using assms(1) by simp
  obtain scr where
    "input_loop [] ?s = input_loop (edit_buffer [] ks) (?s\<lparr>keys := c # rest, screen := scr\<rparr>)"
    using input_loop_typing [OF k assms(3)] by blast
  then have "input_loop [] ?s =
      Ok None (emit Noecho (?s\<lparr>keys := c # rest, screen := scr\<rparr>\<lparr>keys := rest\<rparr>))"
    using input_loop_cancel [of "?s\<lparr>keys := c # rest, screen := scr\<rparr>" c rest] assms(2)
    by simp
  then show ?thesis
    by (simp add: get_user_input_def Let_def bind_def)
qed





section \<open>What each handler runs\<close>

lemma cmds_draw_header: "cmds (draw_header e s) = cmds s @ header_cmds e (cmds s)"
  by (simp add: draw_header_def header_cmds_def Let_def case_prod_beta run_command_def)

lemma cmds_input_loop: "cmds (state_of (input_loop b s)) = cmds s"
proof (induction b s rule: input_loop.induct)
  case (1 input_str s)
  show ?case
  proof (cases "keys s")
    case Nil
    then show ?thesis by (subst input_loop.simps) (simp add: getch_def bind_def)
  next
    case (Cons k ks)
    then have g: "getch s = Ok k (s\<lparr>keys := ks\<rparr>)" by (simp add: getch_def)
    show ?thesis
      using "1.IH" [OF g] g
      by (subst input_loop.simps) (auto simp: bind_def split: option.splits)
  qed
qed

lemma cmds_get_user_input [simp]: "cmds (state_of (get_user_input p row col s)) = cmds s"
proof -
  let ?s = "emit Echo (emit Refresh (emit (Move row (col + int (length p)))
              (addstr row col p None s)))"
  have "cmds (state_of (input_loop [] ?s)) = cmds s"
    by (simp add: cmds_input_loop)
  then show ?thesis
    by (cases "input_loop [] ?s")
       (auto simp: get_user_input_def Let_def bind_def split: option.splits)
qed

lemma value_of_Some: "value_of r = Some a \<Longrightarrow> r = Ok a (state_of r)"
  by (cases r) simp_all

lemma press_any_key_cases:
  "press_any_key s = (case keys s of [] \<Rightarrow> Blocked s | k # ks \<Rightarrow> Ok True (s\<lparr>keys := ks\<rparr>))"
  by (simp add: press_any_key_def getch_def bind_def split: list.splits)

lemma cmds_press_any_key [simp]: "cmds (state_of (press_any_key s)) = cmds s"
  by (simp add: press_any_key_cases split: list.splits)

lemma screen_press_any_key [simp]: "screen (state_of (press_any_key s)) = screen s"
  by (simp add: press_any_key_cases split: list.splits)

lemma value_press_any_key: "value_of (press_any_key s) = (if keys s = [] then None else Some True)"
  by (simp add: press_any_key_cases split: list.splits)

lemma screen_emit [simp]: "screen (emit c s) = screen s @ [c]"
  by (simp add: emit_def)

lemma screen_addstr [simp]: "screen (addstr r c t a s) = screen s @ [Addstr r c t a]"
  by (simp add: addstr_def)

lemma run_command_simps [simp]:
  "fst (run_command e c s) = respond e (cmds s) c"
  "cmds (snd (run_command e c s)) = cmds s @ [c]"
  "screen (snd (run_command e c s)) = screen s"
  by (simp_all add: run_command_def)

lemma commit_and_push_all_None:
  assumes "value_of (get_user_input (py ''Enter commit message (default: auto commit): '') 4 2
             (draw_header e (emit Clear s))) = Some None"
  shows "commit_and_push_all e s =
         Ok False (state_of (get_user_input (py ''Enter commit message (default: auto commit): '')
                     4 2 (draw_header e (emit Clear s))))"
  unfolding commit_and_push_all_def Let_def
  by (subst value_of_Some [OF assms]) (simp add: bind_def)

lemma commit_and_push_all_Some:
  assumes "value_of (get_user_input (py ''Enter commit message (default: auto commit): '') 4 2
             (draw_header e (emit Clear s))) = Some (Some m)"
  shows "cmds (state_of (commit_and_push_all e s)) =
           cmds s @ header_cmds e (cmds s)
           @ [py ''git add -A'', commit_cmd (if m = [] then py ''auto commit'' else m),
              py ''git push'']"
    and "value_of (commit_and_push_all e s) =
           (if keys (state_of (get_user_input
                 (py ''Enter commit message (default: auto commit): '') 4 2
                 (draw_header e (emit Clear s)))) = [] then None else Some True)"
proof -
  let ?g = "get_user_input (py ''Enter commit message (default: auto commit): '') 4 2
             (draw_header e (emit Clear s))"
  have g: "?g = Ok (Some m) (state_of ?g)" by (rule value_of_Some [OF assms])
  have c: "cmds (state_of ?g) = cmds s @ header_cmds e (cmds s)"
    by (simp add: cmds_draw_header)
  show "cmds (state_of (commit_and_push_all e s)) =
           cmds s @ header_cmds e (cmds s)
           @ [py ''git add -A'', commit_cmd (if m = [] then py ''auto commit'' else m),
              py ''git push'']"
    unfolding commit_and_push_all_def Let_def
    by (subst g) (simp add: bind_def case_prod_beta cmds_draw_header commit_cmd_def)
  show "value_of (commit_and_push_all e s) =
           (if keys (state_of ?g) = [] then None else Some True)"
    unfolding commit_and_push_all_def Let_def
    by (subst g) (simp add: bind_def case_prod_beta value_press_any_key)
qed

lemma bind_value: "value_of r = Some a \<Longrightarrow> bind r f = f a (state_of r)"
  by (cases r) (simp_all add: bind_def)

lemma commit_changes_None:
  assumes "value_of (ask_message e s) = Some None"
  shows "commit_changes e s = Ok False (state_of (ask_message e s))"
  unfolding commit_changes_def Let_def by (simp add: bind_value [OF assms])

lemma commit_changes_Some:
  assumes "value_of (ask_message e s) = Some (Some m)"
  shows "cmds (state_of (commit_changes e s)) =
           cmds s @ header_cmds e (cmds s)
           @ [py ''git add -A'', commit_cmd (if m = [] then py ''auto commit'' else m)]"
  unfolding commit_changes_def Let_def
  by (simp add: bind_value [OF assms] case_prod_beta cmds_draw_header commit_cmd_def)

lemma add_files_None:
  assumes "value_of (ask_pattern e s) = Some None"
  shows "add_files e s = Ok False (state_of (ask_pattern e s))"
  unfolding add_files_def Let_def by (simp add: bind_value [OF assms])

lemma add_files_Some:
  assumes "value_of (ask_pattern e s) = Some (Some p)"
  shows "cmds (state_of (add_files e s)) =
           cmds s @ header_cmds e (cmds s)
           @ [if p = [] then py ''git add -A'' else py ''git add '' @ p]"
  unfolding add_files_def Let_def
  by (simp add: bind_value [OF assms] case_prod_beta cmds_draw_header)

lemma create_issue_no_title:
  assumes "value_of (ask_title e s) = Some t" and "t = None \<or> t = Some []"
  shows "create_issue e s = Ok False (state_of (ask_title e s))"
  unfolding create_issue_def Let_def using assms(2) by (auto simp add: bind_value [OF assms(1)])

lemma create_issue_no_body:
  assumes "value_of (ask_title e s) = Some (Some t)" and "t \<noteq> []"
    and "value_of (ask_body e s) = Some b" and "b = None \<or> b = Some []"
  shows "cmds (state_of (create_issue e s)) =
           cmds s @ header_cmds e (cmds s)
           @ [py ''gh issue create --title '' @ dquote @ t @ dquote]"
    and "value_of (create_issue e s) =
           (if keys (state_of (ask_body e s)) = [] then None else Some True)"
  unfolding create_issue_def Let_def using assms(2,4)
  by (auto simp add: bind_value [OF assms(1)] bind_value [OF assms(3)] case_prod_beta
      cmds_draw_header value_press_any_key)

lemma cmds_initial_commit:
  "cmds (initial_commit e s) = cmds s @ [py ''git add -A'', initial_commit_cmd]"
  by (simp add: initial_commit_def Let_def case_prod_beta)

lemma keys_initial_commit [simp]: "keys (initial_commit e s) = keys s"
  by (simp add: initial_commit_def Let_def case_prod_beta)

lemma create_github_repo_unfold:
  "create_github_repo e s =
     (if \<not> git_dir e (cmds (opened e s)) then Ok False (opened e s)
      else bind (ask_name e s) (\<lambda>repo_name s.
             if repo_name = None \<or> repo_name = Some [] then Ok False s
             else
               bind (get_user_input (py ''Make repository private? (y/n): '') 10 2 s)
                 (\<lambda>vis_input s.
                    case vis_input of
                      None \<Rightarrow> Ok False s
                    | Some vis_input \<Rightarrow>
                        let visibility = (if lower (strip vis_input) = py ''y''
                                          then py ''--private'' else py ''--public'');
                            gh_cmd = py ''gh repo create '' @ the repo_name @ py '' ''
                                     @ visibility
                                     @ py '' --source=. --remote=origin --push --confirm'';
                            s = addstr 12 2
                                  (py ''Creating GitHub repository '' @ apostrophe
                                   @ the repo_name @ apostrophe @ py '' as ''
                                   @ drop 2 visibility @ py ''...'')
                                  (Some A_BOLD) s;
                            s = emit Refresh s;
                            ((out_gh, code_gh), s) = run_command e gh_cmd s;
                            s = (if code_gh = 0
                                 then addstr 14 2
                                        (py ''GitHub repository created and pushed successfully.'')
                                        (Some (Color_pair 4)) s
                                 else addstr 15 2 out_gh (Some (Color_pair 3))
                                        (addstr 14 2 (py ''Error creating GitHub repository:'')
                                           (Some (Color_pair 3)) s));
                            s = addstr 17 2 (py ''Press any key to continue...'') None s
                        in press_any_key s)))"
  by (simp add: create_github_repo_def initial_commit_def initial_commit_cmd_def Let_def
      case_prod_beta)

lemma create_github_repo_no_git:
  assumes "\<not> git_dir e (cmds (opened e s))"
  shows "create_github_repo e s = Ok False (opened e s)"
  using assms by (simp add: create_github_repo_unfold)

lemma create_github_repo_no_name:
  assumes "git_dir e (cmds (opened e s))"
    and "value_of (ask_name e s) = Some n" and "n = None \<or> n = Some []"
  shows "create_github_repo e s = Ok False (state_of (ask_name e s))"
  using assms(1,3) by (auto simp: create_github_repo_unfold bind_value [OF assms(2)])

lemma create_github_repo_no_visibility:
  assumes "git_dir e (cmds (opened e s))"
    and "value_of (ask_name e s) = Some (Some n)" and "n \<noteq> []"
    and "value_of (ask_visibility e s) = Some None"
  shows "create_github_repo e s = Ok False (state_of (ask_visibility e s))"
  using assms(1,3)
  by (simp add: create_github_repo_unfold bind_value [OF assms(2)] bind_value [OF assms(4)])

lemma create_github_repo_visibility:
  assumes "git_dir e (cmds (opened e s))"
    and "value_of (ask_name e s) = Some (Some n)" and "n \<noteq> []"
    and "value_of (ask_visibility e s) = Some (Some v)"
  shows "cmds (state_of (create_github_repo e s)) =
           cmds s @ header_cmds e (cmds s)
           @ [py ''git add -A'', initial_commit_cmd,
              py ''gh repo create '' @ n @ py '' ''
              @ (if lower (strip v) = py ''y'' then py ''--private'' else py ''--public'')
              @ py '' --source=. --remote=origin --push --confirm'']"
  using assms(1,3)
  by (simp add: create_github_repo_unfold bind_value [OF assms(2)] bind_value [OF assms(4)]
      Let_def case_prod_beta cmds_initial_commit cmds_draw_header)

lemma cmds_ask_name:
  "cmds (state_of (ask_name e s)) =
     cmds s @ header_cmds e (cmds s) @ [py ''git add -A'', initial_commit_cmd]"
  by (simp add: cmds_initial_commit cmds_draw_header)

lemma cmds_ask_visibility:
  "cmds (state_of (ask_visibility e s)) =
     cmds s @ header_cmds e (cmds s) @ [py ''git add -A'', initial_commit_cmd]"
  by (simp add: cmds_initial_commit cmds_draw_header)

text \<open>The substring test finds \<open>"nothing to commit"\<close> in any output that contains it.\<close>

lemma starts_with_append: "starts_with (n @ post) n"
  by (induction n) simp_all

lemma contains_suffix: "contains (n @ post) n"
proof (cases "n @ post")
  case Nil
  then show ?thesis by simp
next
  case (Cons a list)
  have "starts_with (n @ post) n" by (rule starts_with_append)
  then show ?thesis unfolding Cons by simp
qed

lemma contains_append: "contains hay n \<Longrightarrow> contains (pre @ hay) n"
  by (induction pre) auto

lemma contains_middle: "contains (pre @ n @ post) n"
  by (rule contains_append) (rule contains_suffix)

lemma lower_append: "lower (a @ b) = lower a @ lower b"
  by (simp add: lower_def)

lemma lower_nothing_to_commit: "lower (py ''nothing to commit'') = py ''nothing to commit''"
  by (simp add: lower_def lower_cp_def py_def)

lemma nothing_to_commit_found:
  "out = pre @ py ''nothing to commit'' @ post \<Longrightarrow>
   contains (lower out) (py ''nothing to commit'')"
  by (simp add: lower_append lower_nothing_to_commit contains_middle)

lemma commit_and_push_all_screen:
  assumes "value_of (ask_message e s) = Some (Some m)"
    and "respond e (cmds s @ header_cmds e (cmds s) @ [py ''git add -A''])
           (commit_cmd (if m = [] then py ''auto commit'' else m)) = (out, code)"
  shows "screen (state_of (commit_and_push_all e s)) =
           screen (state_of (ask_message e s))
           @ [Addstr 6 2 (py ''Staging all files...'') (Some A_BOLD), Refresh,
              Addstr 7 2 (py ''Committing changes...'') (Some A_BOLD), Refresh]
           @ (if code = 0 then [Addstr 8 2 (py ''Changes committed.'') (Some (Color_pair 4))]
              else if contains (lower out) (py ''nothing to commit'')
              then [Addstr 8 2 (py ''Nothing to commit.'') (Some (Color_pair 3))]
              else [Addstr 8 2 (py ''Error during commit:'') (Some (Color_pair 3)),
                    Addstr 9 2 out (Some (Color_pair 3))])
           @ [Addstr 10 2 (py ''Pushing changes...'') (Some A_BOLD), Refresh]
           @ (let (out_push, code_push) =
                    respond e (cmds s @ header_cmds e (cmds s)
                      @ [py ''git add -A'', commit_cmd (if m = [] then py ''auto commit'' else m)])
                      (py ''git push'')
              in if code_push = 0
                 then [Addstr 11 2 (py ''Push successful.'') (Some (Color_pair 4))]
                 else [Addstr 11 2 (py ''Error during push:'') (Some (Color_pair 3)),
                       Addstr 12 2 out_push (Some (Color_pair 3))])
           @ [Addstr 14 2 (py ''Press any key to continue...'') None]"
  using assms(2) unfolding commit_and_push_all_def Let_def
  by (simp add: bind_value [OF assms(1)] case_prod_beta cmds_draw_header commit_cmd_def)

text \<open>
  Claim C4. In \<open>commit_and_push_all\<close>, when the commit command returns a nonzero code
  and its output contains "nothing to commit", the handler writes the status line
  "Nothing to commit." (in colour pair 3) and neither "Error during commit:" nor the raw
  output, then writes "Pushing changes..." and runs \<open>git push\<close>; it returns True once
  a key acknowledges the result.
\<close>

theorem nothing_to_commit_still_pushes:
  assumes "value_of (ask_message e s) = Some (Some m)"
    and "respond e (cmds s @ header_cmds e (cmds s) @ [py ''git add -A''])
           (commit_cmd (if m = [] then py ''auto commit'' else m)) = (out, code)"
    and "code \<noteq> 0"
    and "out = pre @ py ''nothing to commit'' @ post"
  shows "cmds (state_of (commit_and_push_all e s)) =
           cmds s @ header_cmds e (cmds s)
           @ [py ''git add -A'', commit_cmd (if m = [] then py ''auto commit'' else m),
              py ''git push'']
         \<and> take 7 (drop (length (screen (state_of (ask_message e s))))
                   (screen (state_of (commit_and_push_all e s)))) =
             [Addstr 6 2 (py ''Staging all files...'') (Some A_BOLD), Refresh,
              Addstr 7 2 (py ''Committing changes...'') (Some A_BOLD), Refresh,
              Addstr 8 2 (py ''Nothing to commit.'') (Some (Color_pair 3)),
              Addstr 10 2 (py ''Pushing changes...'') (Some A_BOLD), Refresh]
         \<and> Addstr 8 2 (py ''Error during commit:'') (Some (Color_pair 3))
             \<notin> set (drop (length (screen (state_of (ask_message e s))))
                      (screen (state_of (commit_and_push_all e s))))
         \<and> Addstr 9 2 out (Some (Color_pair 3))
             \<notin> set (drop (length (screen (state_of (ask_message e s))))
                      (screen (state_of (commit_and_push_all e s))))
         \<and> value_of (commit_and_push_all e s) =
             (if keys (state_of (ask_message e s)) = [] then None else Some True)"
proof -
  have found: "contains (lower out) (py ''nothing to commit'')"
    using assms(4) by (rule nothing_to_commit_found)
  have differ: "py ''Nothing to commit.'' \<noteq> py ''Error during commit:''"
    by (simp add: py_def)
  show ?thesis
    using assms(3) found differ
    by (simp add: commit_and_push_all_Some [OF assms(1)]
        commit_and_push_all_screen [OF assms(1,2)] case_prod_beta)
qed

lemma keys_start [simp]: "keys (start ks) = ks"
  by (simp add: start_def)

lemma cmds_start [simp]: "cmds (start ks) = []"
  by (simp add: start_def)

lemma enter_at_once:
  "keys s = 10 # rest \<Longrightarrow>
   value_of (get_user_input p row col s) = Some (Some [])
   \<and> keys (state_of (get_user_input p row col s)) = rest"
  using session_enter [of s "[]" 10 rest p row col] by (simp add: strip_def)

lemma escape_at_once:
  "keys s = 27 # rest \<Longrightarrow>
   value_of (get_user_input p row col s) = Some None
   \<and> keys (state_of (get_user_input p row col s)) = rest"
  using session_cancel [of s "[]" 27 rest p row col] by simp

theorem nothing_to_commit_still_pushes_witness:
  "value_of (ask_message clean_env (start [10, 32])) = Some (Some [])
   \<and> respond clean_env [py ''git remote get-url origin'', py ''git add -A'']
        (commit_cmd (py ''auto commit'')) = (py ''nothing to commit, working tree clean'', 1)
   \<and> cmds (state_of (commit_and_push_all clean_env (start [10, 32]))) =
        [py ''git remote get-url origin'', py ''git add -A'', commit_cmd (py ''auto commit''),
         py ''git push'']
   \<and> value_of (commit_and_push_all clean_env (start [10, 32])) = Some True"
proof -
  have m: "value_of (ask_message clean_env (start [10, 32])) = Some (Some [])"
    and k: "keys (state_of (ask_message clean_env (start [10, 32]))) = [32]"
    using enter_at_once [of "opened clean_env (start [10, 32])" "[32]"] by simp_all
  have h: "header_cmds clean_env [] = [py ''git remote get-url origin'']"
    by (simp add: header_cmds_def clean_env_def)
  have r: "respond clean_env (cmds (start [10, 32]) @ header_cmds clean_env (cmds (start [10, 32]))
             @ [py ''git add -A''])
           (commit_cmd (if ([]::str) = [] then py ''auto commit'' else []))
           = (py ''nothing to commit, working tree clean'', 1)"
    by (simp add: clean_env_def commit_cmd_def py_def)
  have o: "py ''nothing to commit, working tree clean'' =
           [] @ py ''nothing to commit'' @ py '', working tree clean''"
    by (simp add: py_def)
  show ?thesis
    using nothing_to_commit_still_pushes [OF m r _ o] m k h r by simp
qed

text \<open>
  Claim C8. In \<open>commit_and_push_all\<close> and in \<open>commit_changes\<close>, when the prompt for the
  commit message returns the empty string, the commit command that is run is
  \<open>git commit -m "auto commit"\<close>, after \<open>git add -A\<close> (and before \<open>git push\<close> in the first).
\<close>

theorem empty_message_is_auto_commit:
  assumes "value_of (ask_message e s) = Some (Some [])"
  shows "cmds (state_of (commit_and_push_all e s)) =
           cmds s @ header_cmds e (cmds s)
           @ [py ''git add -A'', py ''git commit -m '' @ dquote @ py ''auto commit'' @ dquote,
              py ''git push'']
         \<and> cmds (state_of (commit_changes e s)) =
           cmds s @ header_cmds e (cmds s)
           @ [py ''git add -A'', py ''git commit -m '' @ dquote @ py ''auto commit'' @ dquote]"
  using commit_and_push_all_Some(1) [OF assms] commit_changes_Some [OF assms]
  by (simp add: commit_cmd_def)

theorem empty_message_is_auto_commit_witness:
  "value_of (ask_message repo_env (start [10, 32])) = Some (Some [])
   \<and> cmds (state_of (commit_and_push_all repo_env (start [10, 32]))) =
        [py ''git remote get-url origin'', py ''git add -A'',
         py ''git commit -m '' @ dquote @ py ''auto commit'' @ dquote, py ''git push'']
   \<and> cmds (state_of (commit_changes repo_env (start [10, 32]))) =
        [py ''git remote get-url origin'', py ''git add -A'',
         py ''git commit -m '' @ dquote @ py ''auto commit'' @ dquote]"
proof -
  have m: "value_of (ask_message repo_env (start [10, 32])) = Some (Some [])"
    using enter_at_once [of "opened repo_env (start [10, 32])" "[32]"] by simp
  have h: "header_cmds repo_env [] = [py ''git remote get-url origin'']"
    by (simp add: header_cmds_def repo_env_def)
  show ?thesis
    using empty_message_is_auto_commit [OF m] m h by simp
qed



lemma header_cmds_repo [simp]: "header_cmds repo_env h = [py ''git remote get-url origin'']"
  by (simp add: header_cmds_def repo_env_def)

lemma header_cmds_plain [simp]: "header_cmds plain_env h = []"
  by (simp add: header_cmds_def plain_env_def)

lemma git_dir_repo [simp]: "git_dir repo_env h"
  by (simp add: repo_env_def)

lemma one_letter:
  "keys s = 114 # 10 # rest \<Longrightarrow>
   value_of (get_user_input p row col s) = Some (Some [114])
   \<and> keys (state_of (get_user_input p row col s)) = rest"
  using session_enter [of s "[114]" 10 rest p row col]
  by (simp add: strip_def is_space_def is_backspace_def is_char_key_def key_defs)

text \<open>
  Claim C9, as stated, fails inside a Git repository: with the title prompt cancelled,
  \<open>create_issue\<close> returns False, but the header it drew first has run the lookup of the
  remote.
\<close>

theorem create_issue_without_title_counterexample:
  "value_of (ask_title repo_env (start [27])) = Some None
   \<and> value_of (create_issue repo_env (start [27])) = Some False
   \<and> cmds (start [27]) = []
   \<and> cmds (state_of (create_issue repo_env (start [27]))) = [py ''git remote get-url origin'']"
proof -
  have t: "value_of (ask_title repo_env (start [27])) = Some None"
    using escape_at_once [of "opened repo_env (start [27])" "[]"] by simp
  have "create_issue repo_env (start [27]) = Ok False (state_of (ask_title repo_env (start [27])))"
    using t by (rule create_issue_no_title) simp
  then show ?thesis
    using t by (simp add: cmds_draw_header)
qed

text \<open>
  Claim C9, amended. When the title prompt of \<open>create_issue\<close> returns \<open>None\<close> or the empty
  string, the handler returns False in the very state in which the prompt returned: the
  only command of the invocation is the one \<open>draw_header\<close> runs before the prompt (the
  lookup of the remote, inside a Git repository only), and no issue is created.
\<close>

theorem create_issue_without_title:
  assumes "value_of (ask_title e s) = Some t" and "t = None \<or> t = Some []"
  shows "create_issue e s = Ok False (state_of (ask_title e s))
         \<and> cmds (state_of (create_issue e s)) = cmds s @ header_cmds e (cmds s)"
  using create_issue_no_title [OF assms] by (simp add: cmds_draw_header)

theorem create_issue_without_title_witness:
  "value_of (ask_title repo_env (start [10])) = Some (Some [])
   \<and> value_of (create_issue repo_env (start [10])) = Some False
   \<and> cmds (state_of (create_issue repo_env (start [10]))) = [py ''git remote get-url origin'']
   \<and> value_of (ask_title plain_env (start [27])) = Some None
   \<and> value_of (create_issue plain_env (start [27])) = Some False
   \<and> cmds (state_of (create_issue plain_env (start [27]))) = []"
proof -
  have a: "value_of (ask_title repo_env (start [10])) = Some (Some [])"
    using enter_at_once [of "opened repo_env (start [10])" "[]"] by simp
  have b: "value_of (ask_title plain_env (start [27])) = Some None"
    using escape_at_once [of "opened plain_env (start [27])" "[]"] by simp
  show ?thesis
    using create_issue_without_title [OF a] create_issue_without_title [OF b] a b
    by (simp add: cmds_draw_header)
qed

text \<open>
  Claim C3, as stated, fails: \<open>create_github_repo\<close> stages and commits before it asks for
  the repository name, so that a cancelled name prompt leaves three commands run.
\<close>

theorem create_github_repo_cancelled_counterexample:
  "git_dir repo_env (cmds (opened repo_env (start [27])))
   \<and> value_of (ask_name repo_env (start [27])) = Some None
   \<and> value_of (create_github_repo repo_env (start [27])) = Some False
   \<and> cmds (start [27]) = []
   \<and> cmds (state_of (create_github_repo repo_env (start [27]))) =
        [py ''git remote get-url origin'', py ''git add -A'',
         py ''git commit -m '' @ apostrophe @ py ''Initial commit'' @ apostrophe]"
proof -
  have n: "value_of (ask_name repo_env (start [27])) = Some None"
    using escape_at_once [of "initial_commit repo_env (opened repo_env (start [27]))" "[]"]
    by simp
  have "create_github_repo repo_env (start [27]) =
        Ok False (state_of (ask_name repo_env (start [27])))"
    by (rule create_github_repo_no_name [OF _ n]) simp_all
  then show ?thesis
    using n by (simp add: cmds_initial_commit cmds_draw_header initial_commit_cmd_def)
qed

text \<open>
  Claim C3, amended. Inside a Git repository, when the prompt for the repository name, or
  after a name the prompt for the visibility, returns \<open>None\<close>, \<open>create_github_repo\<close>
  returns False in the very state in which that prompt returned. The commands of the
  invocation are those run before the first prompt: the header's lookup of the remote,
  \<open>git add -A\<close> and the initial commit; \<open>gh repo create\<close> is not run. (Outside a Git
  repository the handler returns before it asks anything, \<open>create_github_repo_no_git\<close>.)
\<close>

theorem create_github_repo_cancelled:
  assumes "git_dir e (cmds (opened e s))"
    and "value_of (ask_name e s) = Some None
         \<or> (\<exists>n. value_of (ask_name e s) = Some (Some n) \<and> n \<noteq> []
                \<and> value_of (ask_visibility e s) = Some None)"
  shows "value_of (create_github_repo e s) = Some False
         \<and> cmds (state_of (create_github_repo e s)) =
             cmds s @ header_cmds e (cmds s)
             @ [py ''git add -A'',
                py ''git commit -m '' @ apostrophe @ py ''Initial commit'' @ apostrophe]
         \<and> state_of (create_github_repo e s) =
             (if value_of (ask_name e s) = Some None then state_of (ask_name e s)
              else state_of (ask_visibility e s))"
  using assms(2)
proof
  assume n: "value_of (ask_name e s) = Some None"
  have "create_github_repo e s = Ok False (state_of (ask_name e s))"
    by (rule create_github_repo_no_name [OF assms(1) n]) simp
  then show ?thesis
    using n by (simp add: cmds_initial_commit cmds_draw_header initial_commit_cmd_def)
next
  assume "\<exists>n. value_of (ask_name e s) = Some (Some n) \<and> n \<noteq> []
               \<and> value_of (ask_visibility e s) = Some None"
  then obtain n where n: "value_of (ask_name e s) = Some (Some n)" "n \<noteq> []"
    and v: "value_of (ask_visibility e s) = Some None"
    by blast
  have "create_github_repo e s = Ok False (state_of (ask_visibility e s))"
    by (rule create_github_repo_no_visibility [OF assms(1) n v])
  then show ?thesis
    using n by (simp add: cmds_initial_commit cmds_draw_header initial_commit_cmd_def)
qed

theorem create_github_repo_cancelled_witness:
  "git_dir repo_env (cmds (opened repo_env (start [114, 10, 27])))
   \<and> value_of (ask_name repo_env (start [114, 10, 27])) = Some (Some [114])
   \<and> value_of (ask_visibility repo_env (start [114, 10, 27])) = Some None
   \<and> value_of (create_github_repo repo_env (start [114, 10, 27])) = Some False
   \<and> cmds (state_of (create_github_repo repo_env (start [114, 10, 27]))) =
        [py ''git remote get-url origin'', py ''git add -A'',
         py ''git commit -m '' @ apostrophe @ py ''Initial commit'' @ apostrophe]"
proof -
  have n: "value_of (ask_name repo_env (start [114, 10, 27])) = Some (Some [114])"
    and k: "keys (state_of (ask_name repo_env (start [114, 10, 27]))) = [27]"
    using one_letter [of "initial_commit repo_env (opened repo_env (start [114, 10, 27]))" "[27]"]
    by simp_all
  have v: "value_of (ask_visibility repo_env (start [114, 10, 27])) = Some None"
    using escape_at_once [of "state_of (ask_name repo_env (start [114, 10, 27]))" "[]"] k
    by simp
  have g: "git_dir repo_env (cmds (opened repo_env (start [114, 10, 27])))" by simp
  have h: "value_of (ask_name repo_env (start [114, 10, 27])) = Some None
         \<or> (\<exists>n. value_of (ask_name repo_env (start [114, 10, 27])) = Some (Some n) \<and> n \<noteq> []
                \<and> value_of (ask_visibility repo_env (start [114, 10, 27])) = Some None)"
    using n v by simp
  show ?thesis
    using create_github_repo_cancelled [OF g h] n v
    by (simp add: cmds_initial_commit cmds_draw_header initial_commit_cmd_def)
qed

lemma one_letter_t:
  "keys s = 116 # 10 # rest \<Longrightarrow>
   value_of (get_user_input p row col s) = Some (Some [116])
   \<and> keys (state_of (get_user_input p row col s)) = rest"
  using session_enter [of s "[116]" 10 rest p row col]
  by (simp add: strip_def is_space_def is_backspace_def is_char_key_def key_defs)

text \<open>
  Claim C5, as stated, fails in \<open>create_issue\<close>. With the title "t" entered and the body
  prompt cancelled, the handler still runs \<open>gh issue create\<close> and returns True; and at
  the title prompt the empty string makes the handler return False, as \<open>None\<close> does.
\<close>

theorem cancel_versus_empty_counterexample:
  "value_of (ask_title repo_env (start [116, 10, 27, 32])) = Some (Some (py ''t''))
   \<and> value_of (ask_body repo_env (start [116, 10, 27, 32])) = Some None
   \<and> value_of (create_issue repo_env (start [116, 10, 27, 32])) = Some True
   \<and> cmds (state_of (create_issue repo_env (start [116, 10, 27, 32]))) =
        [py ''git remote get-url origin'',
         py ''gh issue create --title '' @ dquote @ py ''t'' @ dquote]
   \<and> value_of (ask_title repo_env (start [10])) = Some (Some [])
   \<and> value_of (create_issue repo_env (start [10])) = Some False
   \<and> cmds (state_of (create_issue repo_env (start [10]))) = [py ''git remote get-url origin'']"
proof -
  let ?s = "start [116, 10, 27, 32]"
  have t: "value_of (ask_title repo_env ?s) = Some (Some [116])"
    and kt: "keys (state_of (ask_title repo_env ?s)) = [27, 32]"
    using one_letter_t [of "opened repo_env ?s" "[27, 32]"] by simp_all
  have b: "value_of (ask_body repo_env ?s) = Some None"
    and kb: "keys (state_of (ask_body repo_env ?s)) = [32]"
    using escape_at_once [of "state_of (ask_title repo_env ?s)" "[32]"] kt by simp_all
  have e: "value_of (ask_title repo_env (start [10])) = Some (Some [])"
    using enter_at_once [of "opened repo_env (start [10])" "[]"] by simp
  have "create_issue repo_env (start [10]) =
        Ok False (state_of (ask_title repo_env (start [10])))"
    using e by (rule create_issue_no_title) simp
  then show ?thesis
    using create_issue_no_body [OF t _ b] t b kb e
    by (simp add: py_def cmds_draw_header)
qed

lemma value_of_Ok: "r = Ok a s \<Longrightarrow> value_of r = Some a"
  by simp

text \<open>
  Claim C5, amended. At the prompts for the commit message (\<open>commit_and_push_all\<close>,
  \<open>commit_changes\<close>), for the file pattern (\<open>add_files\<close>) and for the visibility
  (\<open>create_github_repo\<close>), \<open>None\<close> makes the handler return False with no command run
  after the prompt, whereas the empty string makes it go on with the default: the message
  "auto commit", \<open>git add -A\<close>, a public repository. At the prompts for the issue title
  and for the repository name, the empty string makes the handler return False with no
  command run after the prompt, exactly as \<open>None\<close> does. The commands listed before a
  prompt are those of \<open>draw_header\<close> and, in \<open>create_github_repo\<close>, of the staging and the
  initial commit.
\<close>

theorem cancel_versus_empty:
  "(value_of (ask_message e s) = Some None \<longrightarrow>
      value_of (commit_and_push_all e s) = Some False
      \<and> cmds (state_of (commit_and_push_all e s)) = cmds s @ header_cmds e (cmds s)
      \<and> value_of (commit_changes e s) = Some False
      \<and> cmds (state_of (commit_changes e s)) = cmds s @ header_cmds e (cmds s))
   \<and> (value_of (ask_message e s) = Some (Some []) \<longrightarrow>
      cmds (state_of (commit_and_push_all e s)) =
        cmds s @ header_cmds e (cmds s)
        @ [py ''git add -A'', commit_cmd (py ''auto commit''), py ''git push'']
      \<and> cmds (state_of (commit_changes e s)) =
        cmds s @ header_cmds e (cmds s) @ [py ''git add -A'', commit_cmd (py ''auto commit'')])
   \<and> (value_of (ask_pattern e s) = Some None \<longrightarrow>
      value_of (add_files e s) = Some False
      \<and> cmds (state_of (add_files e s)) = cmds s @ header_cmds e (cmds s))
   \<and> (value_of (ask_pattern e s) = Some (Some []) \<longrightarrow>
      cmds (state_of (add_files e s)) = cmds s @ header_cmds e (cmds s) @ [py ''git add -A''])
   \<and> (git_dir e (cmds (opened e s)) \<and> value_of (ask_name e s) = Some (Some n) \<and> n \<noteq> []
      \<and> value_of (ask_visibility e s) = Some None \<longrightarrow>
      value_of (create_github_repo e s) = Some False
      \<and> cmds (state_of (create_github_repo e s)) =
        cmds s @ header_cmds e (cmds s) @ [py ''git add -A'', initial_commit_cmd])
   \<and> (git_dir e (cmds (opened e s)) \<and> value_of (ask_name e s) = Some (Some n) \<and> n \<noteq> []
      \<and> value_of (ask_visibility e s) = Some (Some []) \<longrightarrow>
      cmds (state_of (create_github_repo e s)) =
        cmds s @ header_cmds e (cmds s)
        @ [py ''git add -A'', initial_commit_cmd,
           py ''gh repo create '' @ n
           @ py '' --public --source=. --remote=origin --push --confirm''])
   \<and> (value_of (ask_title e s) = Some t \<and> (t = None \<or> t = Some []) \<longrightarrow>
      value_of (create_issue e s) = Some False
      \<and> cmds (state_of (create_issue e s)) = cmds s @ header_cmds e (cmds s))
   \<and> (git_dir e (cmds (opened e s)) \<and> value_of (ask_name e s) = Some r
      \<and> (r = None \<or> r = Some []) \<longrightarrow>
      value_of (create_github_repo e s) = Some False
      \<and> cmds (state_of (create_github_repo e s)) =
        cmds s @ header_cmds e (cmds s) @ [py ''git add -A'', initial_commit_cmd])"
proof (intro conjI impI)
  assume a: "value_of (ask_message e s) = Some None"
  show "value_of (commit_and_push_all e s) = Some False"
    by (simp add: commit_and_push_all_None [OF a])
  show "cmds (state_of (commit_and_push_all e s)) = cmds s @ header_cmds e (cmds s)"
    by (simp add: commit_and_push_all_None [OF a] cmds_draw_header)
  show "value_of (commit_changes e s) = Some False"
    by (simp add: commit_changes_None [OF a])
  show "cmds (state_of (commit_changes e s)) = cmds s @ header_cmds e (cmds s)"
    by (simp add: commit_changes_None [OF a] cmds_draw_header)
next
  assume a: "value_of (ask_message e s) = Some (Some [])"
  show "cmds (state_of (commit_and_push_all e s)) =
        cmds s @ header_cmds e (cmds s)
        @ [py ''git add -A'', commit_cmd (py ''auto commit''), py ''git push'']"
    using commit_and_push_all_Some(1) [OF a] by simp
  show "cmds (state_of (commit_changes e s)) =
        cmds s @ header_cmds e (cmds s) @ [py ''git add -A'', commit_cmd (py ''auto commit'')]"
    using commit_changes_Some [OF a] by simp
next
  assume a: "value_of (ask_pattern e s) = Some None"
  show "value_of (add_files e s) = Some False"
    by (simp add: add_files_None [OF a])
  show "cmds (state_of (add_files e s)) = cmds s @ header_cmds e (cmds s)"
    by (simp add: add_files_None [OF a] cmds_draw_header)
next
  assume a: "value_of (ask_pattern e s) = Some (Some [])"
  show "cmds (state_of (add_files e s)) =
        cmds s @ header_cmds e (cmds s) @ [py ''git add -A'']"
    using add_files_Some [OF a] by simp
next
  assume a: "git_dir e (cmds (opened e s)) \<and> value_of (ask_name e s) = Some (Some n)
      \<and> n \<noteq> [] \<and> value_of (ask_visibility e s) = Some None"
  then have eq: "create_github_repo e s = Ok False (state_of (ask_visibility e s))"
    using create_github_repo_no_visibility [of e s n] by simp
  show "value_of (create_github_repo e s) = Some False"
    by (simp add: eq)
  show "cmds (state_of (create_github_repo e s)) =
        cmds s @ header_cmds e (cmds s) @ [py ''git add -A'', initial_commit_cmd]"
    by (simp add: eq cmds_initial_commit cmds_draw_header)
next
  assume a: "git_dir e (cmds (opened e s)) \<and> value_of (ask_name e s) = Some (Some n)
      \<and> n \<noteq> [] \<and> value_of (ask_visibility e s) = Some (Some [])"
  have "lower (strip []) \<noteq> py ''y''"
    by (simp add: strip_def lower_def py_def)
  moreover have "cmds (state_of (create_github_repo e s)) =
           cmds s @ header_cmds e (cmds s)
           @ [py ''git add -A'', initial_commit_cmd,
              py ''gh repo create '' @ n @ py '' ''
              @ (if lower (strip []) = py ''y'' then py ''--private'' else py ''--public'')
              @ py '' --source=. --remote=origin --push --confirm'']"
    using a create_github_repo_visibility [of e s n "[]"] by simp
  ultimately show "cmds (state_of (create_github_repo e s)) =
        cmds s @ header_cmds e (cmds s)
        @ [py ''git add -A'', initial_commit_cmd,
           py ''gh repo create '' @ n
           @ py '' --public --source=. --remote=origin --push --confirm'']"
    by (simp add: py_def)
next
  assume a: "value_of (ask_title e s) = Some t \<and> (t = None \<or> t = Some [])"
  then have eq: "create_issue e s = Ok False (state_of (ask_title e s))"
    using create_issue_no_title [of e s t] by simp
  show "value_of (create_issue e s) = Some False"
    by (simp add: eq)
  show "cmds (state_of (create_issue e s)) = cmds s @ header_cmds e (cmds s)"
    by (simp add: eq cmds_draw_header)
next
  assume a: "git_dir e (cmds (opened e s)) \<and> value_of (ask_name e s) = Some r
      \<and> (r = None \<or> r = Some [])"
  then have eq: "create_github_repo e s = Ok False (state_of (ask_name e s))"
    using create_github_repo_no_name [of e s r] by simp
  show "value_of (create_github_repo e s) = Some False"
    by (simp add: eq)
  show "cmds (state_of (create_github_repo e s)) =
        cmds s @ header_cmds e (cmds s) @ [py ''git add -A'', initial_commit_cmd]"
    by (simp add: eq cmds_initial_commit cmds_draw_header)
qed

theorem cancel_versus_empty_witness:
  "value_of (ask_message repo_env (start [27])) = Some None
   \<and> value_of (commit_and_push_all repo_env (start [27])) = Some False
   \<and> cmds (state_of (commit_changes repo_env (start [27]))) = [py ''git remote get-url origin'']
   \<and> value_of (ask_message repo_env (start [10, 32])) = Some (Some [])
   \<and> cmds (state_of (commit_changes repo_env (start [10, 32]))) =
        [py ''git remote get-url origin'', py ''git add -A'', commit_cmd (py ''auto commit'')]
   \<and> value_of (ask_pattern repo_env (start [27])) = Some None
   \<and> value_of (add_files repo_env (start [27])) = Some False
   \<and> value_of (ask_pattern repo_env (start [10, 32])) = Some (Some [])
   \<and> cmds (state_of (add_files repo_env (start [10, 32]))) =
        [py ''git remote get-url origin'', py ''git add -A'']
   \<and> value_of (ask_visibility repo_env (start [114, 10, 27])) = Some None
   \<and> value_of (create_github_repo repo_env (start [114, 10, 27])) = Some False
   \<and> value_of (ask_visibility repo_env (start [114, 10, 10, 32])) = Some (Some [])
   \<and> cmds (state_of (create_github_repo repo_env (start [114, 10, 10, 32]))) =
        [py ''git remote get-url origin'', py ''git add -A'', initial_commit_cmd,
         py ''gh repo create r --public --source=. --remote=origin --push --confirm'']
   \<and> value_of (ask_title repo_env (start [10])) = Some (Some [])
   \<and> value_of (create_issue repo_env (start [10])) = Some False
   \<and> value_of (ask_name repo_env (start [10])) = Some (Some [])
   \<and> value_of (create_github_repo repo_env (start [10])) = Some False"
proof -
  have m1: "value_of (ask_message repo_env (start [27])) = Some None"
    using escape_at_once [of "opened repo_env (start [27])" "[]"] by simp
  have m2: "value_of (ask_message repo_env (start [10, 32])) = Some (Some [])"
    using enter_at_once [of "opened repo_env (start [10, 32])" "[32]"] by simp
  have p1: "value_of (ask_pattern repo_env (start [27])) = Some None"
    using escape_at_once [of "opened repo_env (start [27])" "[]"] by simp
  have p2: "value_of (ask_pattern repo_env (start [10, 32])) = Some (Some [])"
    using enter_at_once [of "opened repo_env (start [10, 32])" "[32]"] by simp
  have n1: "value_of (ask_name repo_env (start [114, 10, 27])) = Some (Some [114])"
    and k1: "keys (state_of (ask_name repo_env (start [114, 10, 27]))) = [27]"
    using one_letter [of "initial_commit repo_env (opened repo_env (start [114, 10, 27]))" "[27]"]
    by simp_all
  have v1: "value_of (ask_visibility repo_env (start [114, 10, 27])) = Some None"
    using escape_at_once [of "state_of (ask_name repo_env (start [114, 10, 27]))" "[]"] k1
    by simp
  have n2: "value_of (ask_name repo_env (start [114, 10, 10, 32])) = Some (Some [114])"
    and k2: "keys (state_of (ask_name repo_env (start [114, 10, 10, 32]))) = [10, 32]"
    using one_letter [of "initial_commit repo_env (opened repo_env (start [114, 10, 10, 32]))"
        "[10, 32]"]
    by simp_all
  have v2: "value_of (ask_visibility repo_env (start [114, 10, 10, 32])) = Some (Some [])"
    using enter_at_once [of "state_of (ask_name repo_env (start [114, 10, 10, 32]))" "[32]"] k2
    by simp
  have t1: "value_of (ask_title repo_env (start [10])) = Some (Some [])"
    using enter_at_once [of "opened repo_env (start [10])" "[]"] by simp
  have n3: "value_of (ask_name repo_env (start [10])) = Some (Some [])"
    using enter_at_once [of "initial_commit repo_env (opened repo_env (start [10]))" "[]"]
    by simp
  have r: "py ''gh repo create '' @ [114]
           @ py '' --public --source=. --remote=origin --push --confirm'' =
           py ''gh repo create r --public --source=. --remote=origin --push --confirm''"
    by (simp add: py_def)
  show ?thesis
    using cancel_versus_empty [where e = repo_env and s = "start [27]"]
      cancel_versus_empty [where e = repo_env and s = "start [10, 32]"]
      cancel_versus_empty [where e = repo_env and s = "start [114, 10, 27]" and n = "[114]"]
      cancel_versus_empty [where e = repo_env and s = "start [114, 10, 10, 32]" and n = "[114]"]
      cancel_versus_empty [where e = repo_env and s = "start [10]" and t = "Some []"
        and r = "Some []"]
      m1 m2 p1 p2 n1 v1 n2 v2 t1 n3 r
    by simp
qed

section \<open>Navigation in the two menus\<close>

lemma main_menu_body_move:
  assumes "keys s = k # rest" and "k = KEY_UP \<or> k = KEY_DOWN"
  shows "main_menu_body e row s =
         Ok (Some ((row + (if k = KEY_DOWN then 1 else - 1)) mod 4))
            ((draw_menu e menu_options row s)\<lparr>keys := rest\<rparr>)"
proof -
  have "getch (draw_menu e menu_options row s) = Ok k ((draw_menu e menu_options row s)\<lparr>keys := rest\<rparr>)"
    using assms(1) by (simp add: getch_Cons)
  then show ?thesis
    using assms(2) by (auto simp: main_menu_body_def Let_def bind_def key_defs menu_options_def)
qed

lemma advanced_menu_body_move:
  assumes "keys s = k # rest" and "k = KEY_UP \<or> k = KEY_DOWN"
  shows "advanced_menu_body e row s =
         Ok (Some ((row + (if k = KEY_DOWN then 1 else - 1)) mod 10))
            ((draw_menu e adv_options row s)\<lparr>keys := rest\<rparr>)"
proof -
  have "getch (draw_menu e adv_options row s) = Ok k ((draw_menu e adv_options row s)\<lparr>keys := rest\<rparr>)"
    using assms(1) by (simp add: getch_Cons)
  then show ?thesis
    using assms(2) by (auto simp: advanced_menu_body_def Let_def bind_def key_defs adv_options_def)
qed

lemma net_delta_Cons:
  "k = KEY_UP \<or> k = KEY_DOWN \<Longrightarrow>
   net_delta (k # ks) = (if k = KEY_DOWN then 1 else - 1) + net_delta ks"
  by (auto simp: net_delta_def key_defs)

lemma iterations_moves:
  assumes body: "\<And>s k rest row. keys s = k # rest \<Longrightarrow> k = KEY_UP \<or> k = KEY_DOWN \<Longrightarrow>
             \<exists>s'. body row s = Ok (Some ((row + (if k = KEY_DOWN then 1 else - 1)) mod n)) s'
                  \<and> keys s' = rest"
  shows "keys s = ks @ rest \<Longrightarrow> list_all (\<lambda>k. k = KEY_UP \<or> k = KEY_DOWN) ks \<Longrightarrow>
         0 \<le> row \<Longrightarrow> row < n \<Longrightarrow>
         value_of (iterations body (length ks) row s) = Some (Some ((row + net_delta ks) mod n))
         \<and> keys (state_of (iterations body (length ks) row s)) = rest"
proof (induction ks arbitrary: row s)
  case Nil
  then show ?case by (simp add: net_delta_def)
next
  case (Cons k ks)
  have k: "k = KEY_UP \<or> k = KEY_DOWN" using Cons.prems(2) by simp
  let ?row = "(row + (if k = KEY_DOWN then 1 else - 1)) mod n"
  obtain s' where b: "body row s = Ok (Some ?row) s'" and ks: "keys s' = ks @ rest"
    using body [of s k "ks @ rest" row] Cons.prems(1) k by auto
  have n: "0 < n" using Cons.prems(3,4) by simp
  have range: "0 \<le> ?row" "?row < n" using n by simp_all
  have "value_of (iterations body (length ks) ?row s') = Some (Some ((?row + net_delta ks) mod n))
        \<and> keys (state_of (iterations body (length ks) ?row s')) = rest"
    using Cons.IH [OF ks _ range] Cons.prems(2) by simp
  moreover have "(?row + net_delta ks) mod n = (row + net_delta (k # ks)) mod n"
    by (simp add: net_delta_Cons [OF k] mod_simps add.assoc)
  ultimately show ?case
    by (simp add: b bind_def)
qed

lemma length_menu_options [simp]: "int (length menu_options) = 4"
  by (simp add: menu_options_def)

lemma length_adv_options [simp]: "int (length adv_options) = 10"
  by (simp add: adv_options_def)

lemma main_menu_loop_unroll:
  "main_menu_loop e row s =
     bind (iterations (main_menu_body e) n row s) (\<lambda>next s.
       case next of None \<Rightarrow> Ok () s | Some row \<Rightarrow> main_menu_loop e row s)"
proof (induction n arbitrary: row s)
  case 0
  show ?case by (simp add: bind_def)
next
  case (Suc n)
  show ?case
  proof (cases "main_menu_body e row s")
    case (Ok nxt s1)
    show ?thesis
    proof (cases nxt)
      case None
      then show ?thesis
        using Ok by (subst main_menu_loop.simps) (simp add: bind_def)
    next
      case (Some r)
      have "main_menu_loop e row s = main_menu_loop e r s1"
        using Ok Some by (subst main_menu_loop.simps) (simp add: bind_def)
      also have "\<dots> = bind (iterations (main_menu_body e) n r s1) (\<lambda>next s.
          case next of None \<Rightarrow> Ok () s | Some row \<Rightarrow> main_menu_loop e row s)"
        by (rule Suc)
      finally show ?thesis
        using Ok Some by (simp add: bind_def)
    qed
  next
    case (Blocked s1)
    then show ?thesis by (subst main_menu_loop.simps) (simp add: bind_def)
  next
    case (Raised x s1)
    then show ?thesis by (subst main_menu_loop.simps) (simp add: bind_def)
  qed
qed

lemma advanced_menu_loop_unroll:
  "advanced_menu_loop e row s =
     bind (iterations (advanced_menu_body e) n row s) (\<lambda>next s.
       case next of None \<Rightarrow> Ok () s | Some row \<Rightarrow> advanced_menu_loop e row s)"
proof (induction n arbitrary: row s)
  case 0
  show ?case by (simp add: bind_def)
next
  case (Suc n)
  show ?case
  proof (cases "advanced_menu_body e row s")
    case (Ok nxt s1)
    show ?thesis
    proof (cases nxt)
      case None
      then show ?thesis
        using Ok by (subst advanced_menu_loop.simps) (simp add: bind_def)
    next
      case (Some r)
      have "advanced_menu_loop e row s = advanced_menu_loop e r s1"
        using Ok Some by (subst advanced_menu_loop.simps) (simp add: bind_def)
      also have "\<dots> = bind (iterations (advanced_menu_body e) n r s1) (\<lambda>next s.
          case next of None \<Rightarrow> Ok () s | Some row \<Rightarrow> advanced_menu_loop e row s)"
        by (rule Suc)
      finally show ?thesis
        using Ok Some by (simp add: bind_def)
    qed
  next
    case (Blocked s1)
    then show ?thesis by (subst advanced_menu_loop.simps) (simp add: bind_def)
  next
    case (Raised x s1)
    then show ?thesis by (subst advanced_menu_loop.simps) (simp add: bind_def)
  qed
qed

lemma main_moves:
  assumes "keys s = ks @ rest" and "list_all (\<lambda>k. k = KEY_UP \<or> k = KEY_DOWN) ks"
    and "0 \<le> row" and "row < 4"
  shows "value_of (iterations (main_menu_body e) (length ks) row s)
           = Some (Some ((row + net_delta ks) mod 4))
         \<and> keys (state_of (iterations (main_menu_body e) (length ks) row s)) = rest"
proof (rule iterations_moves [OF _ assms])
  fix s :: state and k rest row
  assume "keys s = k # rest" and "k = KEY_UP \<or> k = KEY_DOWN"
  then show "\<exists>s'. main_menu_body e row s =
                Ok (Some ((row + (if k = KEY_DOWN then 1 else - 1)) mod 4)) s' \<and> keys s' = rest"
    by (simp add: main_menu_body_move)
qed

lemma advanced_moves:
  assumes "keys s = ks @ rest" and "list_all (\<lambda>k. k = KEY_UP \<or> k = KEY_DOWN) ks"
    and "0 \<le> row" and "row < 10"
  shows "value_of (iterations (advanced_menu_body e) (length ks) row s)
           = Some (Some ((row + net_delta ks) mod 10))
         \<and> keys (state_of (iterations (advanced_menu_body e) (length ks) row s)) = rest"
proof (rule iterations_moves [OF _ assms])
  fix s :: state and k rest row
  assume "keys s = k # rest" and "k = KEY_UP \<or> k = KEY_DOWN"
  then show "\<exists>s'. advanced_menu_body e row s =
                Ok (Some ((row + (if k = KEY_DOWN then 1 else - 1)) mod 10)) s' \<and> keys s' = rest"
    by (simp add: advanced_menu_body_move)
qed

text \<open>
  Claim C1. In the main menu (4 options) and in the advanced menu (10 options), after any
  sequence of Up and Down keys the selected row is the initial row plus the net number of
  Down keys, modulo the number of options; it lies between 0 and that number, and the loop
  goes on from that row with the remaining keys. The witness is the scenario Up, Up, Down
  from row 0, which selects row 3 of the main menu.
\<close>

theorem navigation_wraps:
  assumes "keys s = ks @ rest" and "list_all (\<lambda>k. k = KEY_UP \<or> k = KEY_DOWN) ks"
    and "0 \<le> row"
  shows "(row < int (length menu_options) \<longrightarrow>
            value_of (iterations (main_menu_body e) (length ks) row s)
              = Some (Some ((row + net_delta ks) mod int (length menu_options)))
            \<and> keys (state_of (iterations (main_menu_body e) (length ks) row s)) = rest
            \<and> main_menu_loop e row s =
                main_menu_loop e ((row + net_delta ks) mod int (length menu_options))
                  (state_of (iterations (main_menu_body e) (length ks) row s)))
         \<and> (row < int (length adv_options) \<longrightarrow>
            value_of (iterations (advanced_menu_body e) (length ks) row s)
              = Some (Some ((row + net_delta ks) mod int (length adv_options)))
            \<and> keys (state_of (iterations (advanced_menu_body e) (length ks) row s)) = rest
            \<and> advanced_menu_loop e row s =
                advanced_menu_loop e ((row + net_delta ks) mod int (length adv_options))
                  (state_of (iterations (advanced_menu_body e) (length ks) row s)))
         \<and> 0 \<le> (row + net_delta ks) mod int (length menu_options)
         \<and> (row + net_delta ks) mod int (length menu_options) < int (length menu_options)
         \<and> 0 \<le> (row + net_delta ks) mod int (length adv_options)
         \<and> (row + net_delta ks) mod int (length adv_options) < int (length adv_options)"
proof (intro conjI impI)
  assume r: "row < int (length menu_options)"
  then have m: "value_of (iterations (main_menu_body e) (length ks) row s)
           = Some (Some ((row + net_delta ks) mod 4))
         \<and> keys (state_of (iterations (main_menu_body e) (length ks) row s)) = rest"
    using main_moves [OF assms] by simp
  then show "value_of (iterations (main_menu_body e) (length ks) row s)
              = Some (Some ((row + net_delta ks) mod int (length menu_options)))"
    and "keys (state_of (iterations (main_menu_body e) (length ks) row s)) = rest"
    by simp_all
  show "main_menu_loop e row s =
          main_menu_loop e ((row + net_delta ks) mod int (length menu_options))
            (state_of (iterations (main_menu_body e) (length ks) row s))"
    using m
    by (subst main_menu_loop_unroll [of e row s "length ks"])
       (simp add: bind_value [of _ "Some ((row + net_delta ks) mod 4)"])
next
  assume r: "row < int (length adv_options)"
  then have m: "value_of (iterations (advanced_menu_body e) (length ks) row s)
           = Some (Some ((row + net_delta ks) mod 10))
         \<and> keys (state_of (iterations (advanced_menu_body e) (length ks) row s)) = rest"
    using advanced_moves [OF assms] by simp
  then show "value_of (iterations (advanced_menu_body e) (length ks) row s)
              = Some (Some ((row + net_delta ks) mod int (length adv_options)))"
    and "keys (state_of (iterations (advanced_menu_body e) (length ks) row s)) = rest"
    by simp_all
  show "advanced_menu_loop e row s =
          advanced_menu_loop e ((row + net_delta ks) mod int (length adv_options))
            (state_of (iterations (advanced_menu_body e) (length ks) row s))"
    using m
    by (subst advanced_menu_loop_unroll [of e row s "length ks"])
       (simp add: bind_value [of _ "Some ((row + net_delta ks) mod 10)"])
qed simp_all

theorem navigation_wraps_witness:
  "list_all (\<lambda>k. k = KEY_UP \<or> k = KEY_DOWN) [KEY_UP, KEY_UP, KEY_DOWN]
   \<and> net_delta [KEY_UP, KEY_UP, KEY_DOWN] = - 1
   \<and> value_of (iterations (main_menu_body repo_env) 3 0 (start [KEY_UP, KEY_UP, KEY_DOWN, 10]))
       = Some (Some 3)
   \<and> keys (state_of (iterations (main_menu_body repo_env) 3 0
        (start [KEY_UP, KEY_UP, KEY_DOWN, 10]))) = [10]
   \<and> value_of (iterations (advanced_menu_body repo_env) 3 0
        (start [KEY_UP, KEY_UP, KEY_DOWN, 10])) = Some (Some 9)"
proof -
  have n: "length [KEY_UP, KEY_UP, KEY_DOWN] = 3" by simp
  show ?thesis
    using navigation_wraps [of "start [KEY_UP, KEY_UP, KEY_DOWN, 10]"
        "[KEY_UP, KEY_UP, KEY_DOWN]" "[10]" 0 repo_env, unfolded n]
    by (simp add: net_delta_def key_defs del: iterations.simps)
qed









end
